theory Spec2Isabelle
  imports Main
begin

section \<open>Data model\<close>

text \<open>
  Instants are milliseconds since the epoch (what \<^verbatim>\<open>Date.now()\<close> returns). Every
  operation that reads the clock takes the instant as its argument \<open>now\<close>.
  Identifiers generated by the storage layer are consecutive naturals; identifiers that
  arrive in a request (actors, teams) are strings.
\<close>

type_synonym time = int

text \<open>
  The error classes of the error-handler module, with the plain JavaScript \<^verbatim>\<open>Error\<close>
  (constructor \<open>Error\<close>, carrying its message) and the errors thrown by the ORM
  (constructor \<open>PrismaError\<close>, carrying the error code).
\<close>

datatype error =
    Error string
  | ValidationError string
  | AuthenticationError string
  | AuthorizationError string
  | NotFoundError string
  | ConflictError string
  | PrismaError string

record role =
  role_id :: nat
  role_name :: string
  role_permissions :: "string list"
  role_isSystem :: bool

record userRole =
  ur_userId :: string
  ur_roleId :: nat
  ur_grantedBy :: string
  ur_expiresAt :: "time option"

record teamMember =
  tm_teamId :: string
  tm_userId :: string
  tm_role :: string
  tm_leftAt :: "time option"

record auditLog =
  al_userId :: "string option"
  al_action :: string
  al_resource :: string
  al_resourceId :: "string option"
  al_details :: "(string \<times> string) list"
  al_ipAddress :: "string option"
  al_userAgent :: "string option"
  al_status :: string
  al_errorMessage :: "string option"
  al_duration :: "nat option"
  al_createdAt :: time

record securityIncident =
  si_id :: nat
  si_type :: string
  si_severity :: string
  si_title :: string
  si_description :: string
  si_status :: string
  si_detectedAt :: time
  si_affectedUsers :: "string list"
  si_resolution :: "string option"
  si_resolvedBy :: "string option"
  si_resolvedAt :: "time option"

text \<open>
  The persisted state: one list per table, in insertion order. \<open>faults\<close> is the script of
  storage failures that the audit service meets: each of its storage calls takes the head
  of the list, and fails when the head is \<open>True\<close> (an empty list means no failure).
  \<open>logged\<close> is what the audit service has written to the application logger, as pairs of
  level and message; the lines the other modules write to the logger change nothing the
  model reads, and are left out.
\<close>

record world =
  roles :: "role list"
  userRoles :: "userRole list"
  teamMembers :: "teamMember list"
  auditLogs :: "auditLog list"
  securityIncidents :: "securityIncident list"
  nextId :: nat
  faults :: "bool list"
  logged :: "(string \<times> string) list"

section \<open>RBAC service\<close>

text \<open>
  The expiry filter shared by the resolution queries:
  \<^verbatim>\<open>OR: [{ expiresAt: null }, { expiresAt: { gt: new Date() } }]\<close>.
\<close>

definition notExpired :: "time \<Rightarrow> userRole \<Rightarrow> bool" where
  "notExpired now ur = (case ur_expiresAt ur of None \<Rightarrow> True | Some e \<Rightarrow> e > now)"

text \<open>
  \<^verbatim>\<open>include: { role: true }\<close>: the role row of an assignment. The foreign key of the
  assignment table guarantees that the row exists; an assignment without one joins to
  nothing.
\<close>

definition roleOf :: "world \<Rightarrow> userRole \<Rightarrow> role option" where
  "roleOf s ur = find (\<lambda>r. role_id r = ur_roleId ur) (roles s)"

text \<open>
  \<^verbatim>\<open>prisma.userRole.findMany({ where: { userId, OR: [...] }, include: { role: true } })\<close>
\<close>

definition findUserRoles :: "time \<Rightarrow> world \<Rightarrow> string \<Rightarrow> (userRole \<times> role) list" where
  "findUserRoles now s userId =
     List.map_filter (\<lambda>ur. case roleOf s ur of None \<Rightarrow> None | Some r \<Rightarrow> Some (ur, r))
       (filter (\<lambda>ur. ur_userId ur = userId \<and> notExpired now ur) (userRoles s))"

fun hasPermission_loop :: "(userRole \<times> role) list \<Rightarrow> string \<Rightarrow> bool" where
  "hasPermission_loop [] permission = False"
| "hasPermission_loop (userRole # rest) permission =
     (if permission \<in> set (role_permissions (snd userRole)) then True
      else hasPermission_loop rest permission)"

definition hasPermission :: "time \<Rightarrow> world \<Rightarrow> string \<Rightarrow> string \<Rightarrow> bool" where
  "hasPermission now s userId permission =
     hasPermission_loop (findUserRoles now s userId) permission"

fun hasAnyPermission :: "time \<Rightarrow> world \<Rightarrow> string \<Rightarrow> string list \<Rightarrow> bool" where
  "hasAnyPermission now s userId [] = False"
| "hasAnyPermission now s userId (permission # permissions) =
     (if hasPermission now s userId permission then True
      else hasAnyPermission now s userId permissions)"

fun hasAllPermissions :: "time \<Rightarrow> world \<Rightarrow> string \<Rightarrow> string list \<Rightarrow> bool" where
  "hasAllPermissions now s userId [] = True"
| "hasAllPermissions now s userId (permission # permissions) =
     (if \<not> hasPermission now s userId permission then False
      else hasAllPermissions now s userId permissions)"

text \<open>
  \<^verbatim>\<open>findFirst({ where: { userId, role: { name: roleName }, OR: [...] } })\<close>, then
  \<^verbatim>\<open>!!userRole\<close>.
\<close>

definition hasRole :: "time \<Rightarrow> world \<Rightarrow> string \<Rightarrow> string \<Rightarrow> bool" where
  "hasRole now s userId roleName =
     (case find (\<lambda>ur. ur_userId ur = userId
                      \<and> (case roleOf s ur of None \<Rightarrow> False | Some r \<Rightarrow> role_name r = roleName)
                      \<and> notExpired now ur) (userRoles s) of
        None \<Rightarrow> False
      | Some userRole \<Rightarrow> True)"

text \<open>
  A JavaScript \<^verbatim>\<open>Set\<close> keeps its elements in insertion order, each once;
  \<^verbatim>\<open>Array.from\<close> returns them in that order.
\<close>

definition set_add :: "'a \<Rightarrow> 'a list \<Rightarrow> 'a list" where
  "set_add p permissions = (if p \<in> set permissions then permissions else permissions @ [p])"

definition getUserPermissions :: "time \<Rightarrow> world \<Rightarrow> string \<Rightarrow> string list" where
  "getUserPermissions now s userId =
     fold (\<lambda>ur permissions. fold set_add (role_permissions (snd ur)) permissions)
       (findUserRoles now s userId) []"

text \<open>\<^verbatim>\<open>prisma.role.findUnique({ where: { name: roleName } })\<close>\<close>

definition findRoleByName :: "world \<Rightarrow> string \<Rightarrow> role option" where
  "findRoleByName s roleName = find (\<lambda>r. role_name r = roleName) (roles s)"

definition assignRole ::
  "world \<Rightarrow> string \<Rightarrow> string \<Rightarrow> string \<Rightarrow> time option \<Rightarrow> error + world" where
  "assignRole s userId roleName grantedBy expiresAt =
     (case findRoleByName s roleName of
        None \<Rightarrow> Inl (Error (''Role '' @ [CHR 0x27] @ roleName @ [CHR 0x27] @ '' not found''))
      | Some role \<Rightarrow>
          (case find (\<lambda>ur. ur_userId ur = userId \<and> ur_roleId ur = role_id role) (userRoles s) of
             Some existingAssignment \<Rightarrow>
               Inl (Error (''User already has role '' @ [CHR 0x27] @ roleName @ [CHR 0x27]))
           | None \<Rightarrow>
               Inr (s\<lparr>userRoles := userRoles s @
                      [\<lparr>ur_userId = userId, ur_roleId = role_id role,
                        ur_grantedBy = grantedBy, ur_expiresAt = expiresAt\<rparr>]\<rparr>)))"

definition revokeRole :: "world \<Rightarrow> string \<Rightarrow> string \<Rightarrow> error + world" where
  "revokeRole s userId roleName =
     (case findRoleByName s roleName of
        None \<Rightarrow> Inl (Error (''Role '' @ [CHR 0x27] @ roleName @ [CHR 0x27] @ '' not found''))
      | Some role \<Rightarrow>
          Inr (s\<lparr>userRoles :=
                 filter (\<lambda>ur. \<not> (ur_userId ur = userId \<and> ur_roleId ur = role_id role))
                   (userRoles s)\<rparr>))"

text \<open>
  The table of \<^verbatim>\<open>hasTeamPermission\<close>; a role outside the table has no entry
  (\<^verbatim>\<open>teamPermissions[membership.role]?.includes(permission) || false\<close>).
\<close>

definition teamPermissions :: "string \<Rightarrow> string list option" where
  "teamPermissions r =
     (if r = ''OWNER'' then
        Some [''teams:write'', ''teams:manage_members'', ''projects:manage'', ''documents:write'']
      else if r = ''LEAD'' then
        Some [''teams:manage_members'', ''projects:write'', ''documents:write'']
      else if r = ''MEMBER'' then
        Some [''projects:read'', ''documents:read'', ''documents:write'']
      else if r = ''VIEWER'' then
        Some [''projects:read'', ''documents:read'']
      else None)"

text \<open>
  \<^verbatim>\<open>prisma.teamMember.findUnique({ where: { teamId_userId: { teamId, userId } } })\<close>:
  the row of the pair, whatever its \<open>leftAt\<close>.
\<close>

definition findTeamMember :: "world \<Rightarrow> string \<Rightarrow> string \<Rightarrow> teamMember option" where
  "findTeamMember s teamId userId =
     find (\<lambda>m. tm_teamId m = teamId \<and> tm_userId m = userId) (teamMembers s)"

definition hasTeamPermission :: "time \<Rightarrow> world \<Rightarrow> string \<Rightarrow> string \<Rightarrow> string \<Rightarrow> bool" where
  "hasTeamPermission now s userId teamId permission =
     (if hasPermission now s userId permission then True
      else (case findTeamMember s teamId userId of
              None \<Rightarrow> False
            | Some membership \<Rightarrow>
                (case teamPermissions (tm_role membership) of
                   None \<Rightarrow> False
                 | Some ps \<Rightarrow> permission \<in> set ps)))"

section \<open>Authorization middleware\<close>

text \<open>
  The part of the request the middleware and the route handlers read. \<open>req_user\<close> is
  what \<^verbatim>\<open>authenticate\<close> attached from the verified token (absent when the request is
  not authenticated); \<open>req_clientIP\<close> is the address \<^verbatim>\<open>getClientIP(req)\<close> computes.
  A middleware returns \<open>Inr\<close> where the source calls \<^verbatim>\<open>next()\<close> and \<open>Inl e\<close> where it
  calls \<^verbatim>\<open>next(e)\<close>.
\<close>

record reqUser =
  ru_userId :: string
  ru_email :: string
  ru_roles :: "string list"
  ru_permissions :: "string list"

record request =
  req_user :: "reqUser option"
  req_params_teamId :: "string option"
  req_params_userId :: "string option"
  req_body_teamId :: "string option"
  req_body_role :: "string option"
  req_clientIP :: string
  req_userAgent :: "string option"

definition requirePermission ::
  "string list \<Rightarrow> time \<Rightarrow> world \<Rightarrow> request \<Rightarrow> error + unit" where
  "requirePermission permissions now s req =
     (case req_user req of
        None \<Rightarrow> Inl (AuthenticationError ''Authentication required'')
      | Some user \<Rightarrow>
          (let hasPermission = list_ex (\<lambda>perm. perm \<in> set (ru_permissions user)) permissions
           in if \<not> hasPermission then
                (let dbCheck = hasAnyPermission now s (ru_userId user) permissions
                 in if \<not> dbCheck then Inl (AuthorizationError ''Missing required permission'')
                    else Inr ())
              else Inr ()))"

definition requireAllPermissions ::
  "string list \<Rightarrow> time \<Rightarrow> world \<Rightarrow> request \<Rightarrow> error + unit" where
  "requireAllPermissions permissions now s req =
     (case req_user req of
        None \<Rightarrow> Inl (AuthenticationError ''Authentication required'')
      | Some user \<Rightarrow>
          (let hasAll = list_all (\<lambda>perm. perm \<in> set (ru_permissions user)) permissions
           in if \<not> hasAll then
                (let dbCheck = hasAllPermissions now s (ru_userId user) permissions
                 in if \<not> dbCheck then Inl (AuthorizationError ''Insufficient permissions'')
                    else Inr ())
              else Inr ()))"

text \<open>JavaScript truthiness of a string that may be absent.\<close>

definition truthy :: "string option \<Rightarrow> bool" where
  "truthy x = (case x of None \<Rightarrow> False | Some v \<Rightarrow> v \<noteq> [])"

definition roleHierarchy :: "string list" where
  "roleHierarchy = [''VIEWER'', ''MEMBER'', ''LEAD'', ''OWNER'']"

fun indexOf :: "'a list \<Rightarrow> 'a \<Rightarrow> int" where
  "indexOf [] x = - 1"
| "indexOf (y # ys) x =
     (if y = x then 0 else (let i = indexOf ys x in if i < 0 then - 1 else i + 1))"

text \<open>
  \<^verbatim>\<open>requireTeamMembership(minRole)\<close>. On success the membership is attached to the
  request; the result carries it (\<open>None\<close> for the administrator bypass).
\<close>

definition requireTeamMembership ::
  "string \<Rightarrow> world \<Rightarrow> request \<Rightarrow> error + teamMember option" where
  "requireTeamMembership minRole s req =
     (case req_user req of
        None \<Rightarrow> Inl (AuthenticationError ''Authentication required'')
      | Some user \<Rightarrow>
          (let teamId = (if truthy (req_params_teamId req) then req_params_teamId req
                         else req_body_teamId req)
           in if \<not> truthy teamId then Inl (AuthorizationError ''Team ID required'')
              else if ''admin'' \<in> set (ru_roles user) then Inr None
              else (case findTeamMember s (the teamId) (ru_userId user) of
                      None \<Rightarrow> Inl (AuthorizationError ''Not a member of this team'')
                    | Some membership \<Rightarrow>
                        (let memberRoleIndex = indexOf roleHierarchy (tm_role membership);
                             requiredRoleIndex = indexOf roleHierarchy minRole
                         in if memberRoleIndex < requiredRoleIndex then
                              Inl (AuthorizationError
                                     (''Requires '' @ minRole @ '' role or higher in team''))
                            else Inr (Some membership)))))"

section \<open>Audit service\<close>

subsection \<open>Storage calls that may fail, and the logger\<close>

text \<open>
  An operation of the audit service takes the state and returns either an error or a
  value, with the state it leaves behind: what was written before an exception stays
  written.
\<close>

type_synonym 'a io = "world \<Rightarrow> (error + 'a) \<times> world"

definition returnE :: "'a \<Rightarrow> 'a io" where
  "returnE x s = (Inr x, s)"

definition bindE :: "'a io \<Rightarrow> ('a \<Rightarrow> 'b io) \<Rightarrow> 'b io" where
  "bindE m f s = (case m s of (Inl e, s1) \<Rightarrow> (Inl e, s1) | (Inr x, s1) \<Rightarrow> f x s1)"

text \<open>\<^verbatim>\<open>try { body } catch (error) { handler }\<close>\<close>

definition try_catch :: "'a io \<Rightarrow> (error \<Rightarrow> 'a io) \<Rightarrow> 'a io" where
  "try_catch body handler s =
     (case body s of (Inl e, s1) \<Rightarrow> handler e s1 | (Inr x, s1) \<Rightarrow> (Inr x, s1))"

text \<open>
  One call to the storage layer: it consumes the head of the fault script and fails with
  a connection error when the head is \<open>True\<close>.
\<close>

definition storageCall :: "unit io" where
  "storageCall s =
     (case faults s of
        [] \<Rightarrow> (Inr (), s)
      | f # fs \<Rightarrow> (if f then (Inl (PrismaError ''P1001''), s\<lparr>faults := fs\<rparr>)
                  else (Inr (), s\<lparr>faults := fs\<rparr>)))"

definition logger :: "string \<Rightarrow> string \<Rightarrow> world \<Rightarrow> world" where
  "logger level message s = s\<lparr>logged := logged s @ [(level, message)]\<rparr>"

text \<open>Decimal rendering of a count inside a template string.\<close>

fun show_nat :: "nat \<Rightarrow> string" where
  "show_nat n =
     (if n < 10 then [''0123456789'' ! n]
      else show_nat (n div 10) @ [''0123456789'' ! (n mod 10)])"

declare show_nat.simps [simp del]

text \<open>A value that may be \<^verbatim>\<open>undefined\<close>, inside a template string.\<close>

definition show_opt :: "string option \<Rightarrow> string" where
  "show_opt x = (case x of None \<Rightarrow> ''undefined'' | Some v \<Rightarrow> v)"

subsection \<open>Recording an event\<close>

record logOptions =
  lo_userId :: "string option"
  lo_action :: string
  lo_resource :: string
  lo_resourceId :: "string option"
  lo_details :: "(string \<times> string) list"
  lo_ipAddress :: "string option"
  lo_userAgent :: "string option"
  lo_status :: "string option"
  lo_errorMessage :: "string option"
  lo_duration :: "nat option"

text \<open>The candidate handed to \<^verbatim>\<open>_createSecurityIncident\<close>.\<close>

record incidentData =
  id_type :: string
  id_severity :: string
  id_title :: string
  id_description :: string
  id_affectedUsers :: "string list"

text \<open>
  Modelled from the spec: the schema of the incident table is not under src/, so the
  columns that \<^verbatim>\<open>prisma.securityIncident.create({ data: incident })\<close> leaves to their
  defaults are filled as the spec describes them: a new incident has status \<open>OPEN\<close>,
  is detected at the instant of insertion, and has no resolution yet.
\<close>

definition newIncident :: "nat \<Rightarrow> time \<Rightarrow> incidentData \<Rightarrow> securityIncident" where
  "newIncident i now incident =
     \<lparr>si_id = i, si_type = id_type incident, si_severity = id_severity incident,
      si_title = id_title incident, si_description = id_description incident,
      si_status = ''OPEN'', si_detectedAt = now,
      si_affectedUsers = id_affectedUsers incident,
      si_resolution = None, si_resolvedBy = None, si_resolvedAt = None\<rparr>"

text \<open>
  The \<^verbatim>\<open>where\<close> clause of the duplicate search:
  same type, \<^verbatim>\<open>affectedUsers: { hasSome: incident.affectedUsers }\<close>,
  \<^verbatim>\<open>status: { in: ['OPEN', 'INVESTIGATING'] }\<close>,
  \<^verbatim>\<open>detectedAt: { gte: new Date(Date.now() - 60 * 60 * 1000) }\<close>.
\<close>

definition matchesCandidate :: "time \<Rightarrow> incidentData \<Rightarrow> securityIncident \<Rightarrow> bool" where
  "matchesCandidate now incident i =
     (si_type i = id_type incident
      \<and> list_ex (\<lambda>u. u \<in> set (si_affectedUsers i)) (id_affectedUsers incident)
      \<and> si_status i \<in> set [''OPEN'', ''INVESTIGATING'']
      \<and> si_detectedAt i \<ge> now - 60 * 60 * 1000)"

definition securityIncident_findFirst ::
  "(securityIncident \<Rightarrow> bool) \<Rightarrow> securityIncident option io" where
  "securityIncident_findFirst P =
     bindE storageCall (\<lambda>_ s. (Inr (find P (securityIncidents s)), s))"

text \<open>
  \<^verbatim>\<open>prisma.securityIncident.update({ where: { id }, data })\<close>: the ORM raises
  \<open>P2025\<close> when no row has the identifier.
\<close>

definition securityIncident_update ::
  "nat \<Rightarrow> (securityIncident \<Rightarrow> securityIncident) \<Rightarrow> securityIncident io" where
  "securityIncident_update i upd =
     bindE storageCall (\<lambda>_ s.
       (case find (\<lambda>x. si_id x = i) (securityIncidents s) of
          None \<Rightarrow> (Inl (PrismaError ''P2025''), s)
        | Some x \<Rightarrow>
            (Inr (upd x),
             s\<lparr>securityIncidents :=
                 map (\<lambda>y. if si_id y = i then upd y else y) (securityIncidents s)\<rparr>)))"

definition securityIncident_create :: "time \<Rightarrow> incidentData \<Rightarrow> securityIncident io" where
  "securityIncident_create now incident =
     bindE storageCall (\<lambda>_ s.
       (let x = newIncident (nextId s) now incident
        in (Inr x, s\<lparr>securityIncidents := securityIncidents s @ [x],
                       nextId := Suc (nextId s)\<rparr>)))"

text \<open>The eight bytes that open the alert line in the source file.\<close>

definition alertMark :: string where
  "alertMark =
     [CHR 0xC3, CHR 0xB0, CHR 0xC5, CHR 0xB8, CHR 0xC5, CHR 0xA1, CHR 0xC2, CHR 0xA8]"

definition createSecurityIncident :: "time \<Rightarrow> incidentData \<Rightarrow> unit io" where
  "createSecurityIncident now incident =
     bindE (securityIncident_findFirst (matchesCandidate now incident)) (\<lambda>existing.
       case existing of
         Some ex \<Rightarrow>
           bindE (securityIncident_update (si_id ex)
                    (\<lambda>y. y\<lparr>si_description :=
                              si_description ex @ [CHR 0x0A] @ id_description incident\<rparr>))
             (\<lambda>_. returnE ())
       | None \<Rightarrow>
           bindE (securityIncident_create now incident) (\<lambda>_ s.
             (Inr (), logger ''warn''
                        (alertMark @ '' Security Incident Created: '' @ id_title incident) s)))"

definition auditLog_create :: "auditLog \<Rightarrow> auditLog io" where
  "auditLog_create entry =
     bindE storageCall (\<lambda>_ s. (Inr entry, s\<lparr>auditLogs := auditLogs s @ [entry]\<rparr>))"

definition auditLog_count :: "(auditLog \<Rightarrow> bool) \<Rightarrow> nat io" where
  "auditLog_count P =
     bindE storageCall (\<lambda>_ s. (Inr (length (filter P (auditLogs s))), s))"

text \<open>
  \<^verbatim>\<open>findMany({ where, select: { ipAddress: true }, distinct: ['ipAddress'] })\<close>
\<close>

definition auditLog_distinctIPs :: "(auditLog \<Rightarrow> bool) \<Rightarrow> string option list io" where
  "auditLog_distinctIPs P =
     bindE storageCall (\<lambda>_ s.
       (Inr (remdups (map al_ipAddress (filter P (auditLogs s)))), s))"

definition bruteForceCheck :: "time \<Rightarrow> logOptions \<Rightarrow> unit io" where
  "bruteForceCheck now event =
     (if lo_action event = ''LOGIN_FAILED'' \<and> truthy (lo_userId event) then
        bindE (auditLog_count (\<lambda>l. al_userId l = lo_userId event
                                  \<and> al_action l = ''LOGIN_FAILED''
                                  \<and> al_createdAt l \<ge> now - 15 * 60 * 1000))
          (\<lambda>recentFailures.
             if recentFailures \<ge> 5 then
               createSecurityIncident now
                 \<lparr>id_type = ''BRUTE_FORCE'', id_severity = ''HIGH'',
                  id_title = ''Multiple failed login attempts detected'',
                  id_description =
                    ''User '' @ the (lo_userId event) @ '' has '' @ show_nat recentFailures
                    @ '' failed login attempts in the last 15 minutes from IP ''
                    @ show_opt (lo_ipAddress event),
                  id_affectedUsers = [the (lo_userId event)]\<rparr>
             else returnE ())
      else returnE ())"

definition sensitiveAccessCheck :: "time \<Rightarrow> logOptions \<Rightarrow> unit io" where
  "sensitiveAccessCheck now event =
     (if lo_action event = ''SENSITIVE_DATA_ACCESSED'' \<and> truthy (lo_userId event) then
        bindE (auditLog_count (\<lambda>l. al_userId l = lo_userId event
                                  \<and> al_action l = ''SENSITIVE_DATA_ACCESSED''
                                  \<and> al_createdAt l \<ge> now - 60 * 60 * 1000))
          (\<lambda>recentAccess.
             if recentAccess \<ge> 50 then
               createSecurityIncident now
                 \<lparr>id_type = ''SUSPICIOUS_ACTIVITY'', id_severity = ''MEDIUM'',
                  id_title = ''Unusual data access pattern detected'',
                  id_description =
                    ''User '' @ the (lo_userId event) @ '' has accessed sensitive data ''
                    @ show_nat recentAccess @ '' times in the last hour'',
                  id_affectedUsers = [the (lo_userId event)]\<rparr>
             else returnE ())
      else returnE ())"

definition multipleIPCheck :: "time \<Rightarrow> logOptions \<Rightarrow> unit io" where
  "multipleIPCheck now event =
     (if truthy (lo_userId event) then
        bindE (auditLog_distinctIPs (\<lambda>l. al_userId l = lo_userId event
                                        \<and> al_createdAt l \<ge> now - 30 * 60 * 1000))
          (\<lambda>recentIPs.
             if length recentIPs \<ge> 5 then
               createSecurityIncident now
                 \<lparr>id_type = ''SUSPICIOUS_ACTIVITY'', id_severity = ''MEDIUM'',
                  id_title = ''Multiple IP addresses detected'',
                  id_description =
                    ''User '' @ the (lo_userId event) @ '' has been active from ''
                    @ show_nat (length recentIPs)
                    @ '' different IP addresses in the last 30 minutes'',
                  id_affectedUsers = [the (lo_userId event)]\<rparr>
             else returnE ())
      else returnE ())"

text \<open>
  \<^verbatim>\<open>_detectSuspiciousActivity\<close>: its three checks in the order of the source; an
  exception in one skips the ones after it.
\<close>

definition detectSuspiciousActivity :: "time \<Rightarrow> logOptions \<Rightarrow> unit io" where
  "detectSuspiciousActivity now event =
     bindE (bruteForceCheck now event) (\<lambda>_.
     bindE (sensitiveAccessCheck now event) (\<lambda>_.
     multipleIPCheck now event))"

text \<open>
  Modelled from the spec: the schema of the audit table is not under src/; the
  \<open>createdAt\<close> column, which the source never sets, is the instant of insertion.
\<close>

definition newAuditLog :: "time \<Rightarrow> logOptions \<Rightarrow> auditLog" where
  "newAuditLog now options =
     \<lparr>al_userId = lo_userId options, al_action = lo_action options,
      al_resource = lo_resource options, al_resourceId = lo_resourceId options,
      al_details = lo_details options, al_ipAddress = lo_ipAddress options,
      al_userAgent = lo_userAgent options,
      al_status = (case lo_status options of None \<Rightarrow> ''SUCCESS'' | Some st \<Rightarrow> st),
      al_errorMessage = lo_errorMessage options, al_duration = lo_duration options,
      al_createdAt = now\<rparr>"

text \<open>
  The line \<^verbatim>\<open>AuditService.log\<close> writes to the application log after the entry is
  stored: level \<open>warn\<close> for a \<open>FAILURE\<close>, \<open>info\<close> otherwise.
\<close>

definition auditLine :: "auditLog \<Rightarrow> logOptions \<Rightarrow> world \<Rightarrow> world" where
  "auditLine auditLog options =
     logger (if al_status auditLog = ''FAILURE'' then ''warn'' else ''info'')
       (''Audit: '' @ lo_action options @ '' on '' @ lo_resource options
        @ (if truthy (lo_resourceId options)
           then ''/'' @ the (lo_resourceId options) else []))"

text \<open>
  \<^verbatim>\<open>AuditService.log\<close>. The value is the created entry, or \<^verbatim>\<open>undefined\<close> (\<open>None\<close>)
  when the \<^verbatim>\<open>catch\<close> block ran. The clock does not advance during one call.
\<close>

definition log :: "time \<Rightarrow> logOptions \<Rightarrow> auditLog option io" where
  "log now options =
     try_catch
       (bindE (auditLog_create (newAuditLog now options)) (\<lambda>auditLog.
        bindE (\<lambda>s. (Inr (), auditLine auditLog options s)) (\<lambda>_.
        bindE (detectSuspiciousActivity now options) (\<lambda>_.
        returnE (Some auditLog)))))
       (\<lambda>error s. (Inr None, logger ''error'' ''Failed to create audit log:'' s))"

definition resolveIncident ::
  "time \<Rightarrow> nat \<Rightarrow> string \<Rightarrow> string \<Rightarrow> securityIncident io" where
  "resolveIncident now incidentId resolution resolvedBy =
     bindE (securityIncident_update incidentId
              (\<lambda>y. y\<lparr>si_status := ''RESOLVED'', si_resolution := Some resolution,
                      si_resolvedBy := Some resolvedBy, si_resolvedAt := Some now\<rparr>))
       (\<lambda>incident.
     bindE (log now
              \<lparr>lo_userId = Some resolvedBy, lo_action = ''SECURITY_INCIDENT_RESOLVED'',
               lo_resource = ''SecurityIncident'',
               lo_resourceId = Some (show_nat incidentId),
               lo_details = [(''resolution'', resolution)], lo_ipAddress = None, lo_userAgent = None,
               lo_status = None, lo_errorMessage = None, lo_duration = None\<rparr>)
       (\<lambda>_. returnE incident))"

section \<open>Team membership routes\<close>

text \<open>
  What a handler sends back: the HTTP status, the \<open>success\<close> flag and the text of the
  \<open>error\<close> or \<open>message\<close> field (empty when the body has neither).
\<close>

record response =
  res_status :: nat
  res_success :: bool
  res_text :: string

text \<open>
  \<^verbatim>\<open>prisma.teamMember.update({ where: { teamId_userId: { teamId, userId } }, data })\<close>:
  the ORM raises \<open>P2025\<close> when the pair has no row.
\<close>

definition teamMember_update ::
  "string \<Rightarrow> string \<Rightarrow> (teamMember \<Rightarrow> teamMember) \<Rightarrow> teamMember io" where
  "teamMember_update teamId userId upd s =
     (case findTeamMember s teamId userId of
        None \<Rightarrow> (Inl (PrismaError ''P2025''), s)
      | Some m \<Rightarrow>
          (Inr (upd m),
           s\<lparr>teamMembers :=
               map (\<lambda>y. if tm_teamId y = teamId \<and> tm_userId y = userId then upd y else y)
                 (teamMembers s)\<rparr>))"

text \<open>\<^verbatim>\<open>logAction(req, action, resource, resourceId, details)\<close> of the audit middleware.\<close>

definition logAction ::
  "time \<Rightarrow> request \<Rightarrow> string \<Rightarrow> string \<Rightarrow> string option \<Rightarrow> (string \<times> string) list
     \<Rightarrow> auditLog option io" where
  "logAction now req action resource resourceId details =
     log now
       \<lparr>lo_userId = (case req_user req of
                       None \<Rightarrow> None
                     | Some user \<Rightarrow> if ru_userId user = [] then None
                                   else Some (ru_userId user)),
        lo_action = action, lo_resource = resource, lo_resourceId = resourceId,
        lo_details = details, lo_ipAddress = Some (req_clientIP req),
        lo_userAgent = req_userAgent req,
        lo_status = None, lo_errorMessage = None, lo_duration = None\<rparr>"

text \<open>
  The handler of \<^verbatim>\<open>PUT /teams/:teamId/members/:userId\<close>. The validators of the route
  are declared but their result is never read, so the body's role is stored as it comes
  (an absent role leaves the row as it is).
\<close>

definition updateMemberRole :: "string \<Rightarrow> string \<Rightarrow> request \<Rightarrow> response io" where
  "updateMemberRole teamId userId req =
     bindE (teamMember_update teamId userId
              (\<lambda>m. case req_body_role req of None \<Rightarrow> m | Some r \<Rightarrow> m\<lparr>tm_role := r\<rparr>))
       (\<lambda>membership.
          returnE \<lparr>res_status = 200, res_success = True, res_text = []\<rparr>)"

text \<open>The handler of \<^verbatim>\<open>DELETE /teams/:teamId/members/:userId\<close>.\<close>

definition removeMember :: "time \<Rightarrow> string \<Rightarrow> string \<Rightarrow> request \<Rightarrow> response io" where
  "removeMember now teamId userId req s =
     (let owners = length (filter (\<lambda>m. tm_teamId m = teamId \<and> tm_role m = ''OWNER'')
                             (teamMembers s));
          member = findTeamMember s teamId userId
      in if (case member of None \<Rightarrow> False | Some m \<Rightarrow> tm_role m = ''OWNER'') \<and> owners \<le> 1
         then (Inr \<lparr>res_status = 400, res_success = False,
                     res_text = ''Cannot remove the last owner. Transfer ownership first.''\<rparr>,
               s)
         else bindE (teamMember_update teamId userId (\<lambda>m. m\<lparr>tm_leftAt := Some now\<rparr>))
                (\<lambda>_.
              bindE (logAction now req ''TEAM_MEMBER_REMOVED'' ''Team'' (Some teamId)
                       [(''memberId'', userId)])
                (\<lambda>_.
              returnE \<lparr>res_status = 200, res_success = True,
                       res_text = ''Member removed from team''\<rparr>)) s)"

text \<open>
  The two routes with their middleware: the path parameters are bound, then
  \<^verbatim>\<open>requireTeamMembership\<close> runs (\<open>OWNER\<close> for the update, \<open>LEAD\<close> for the removal),
  then the handler. An error passed to \<^verbatim>\<open>next\<close> ends the request.
\<close>

definition bindParams :: "string \<Rightarrow> string \<Rightarrow> request \<Rightarrow> request" where
  "bindParams teamId userId req =
     req\<lparr>req_params_teamId := Some teamId, req_params_userId := Some userId\<rparr>"

definition route_updateMemberRole :: "string \<Rightarrow> string \<Rightarrow> request \<Rightarrow> response io" where
  "route_updateMemberRole teamId userId req0 s =
     (let req = bindParams teamId userId req0
      in case requireTeamMembership ''OWNER'' s req of
           Inl e \<Rightarrow> (Inl e, s)
         | Inr membership \<Rightarrow> updateMemberRole teamId userId req s)"

definition route_removeMember ::
  "time \<Rightarrow> string \<Rightarrow> string \<Rightarrow> request \<Rightarrow> response io" where
  "route_removeMember now teamId userId req0 s =
     (let req = bindParams teamId userId req0
      in case requireTeamMembership ''LEAD'' s req of
           Inl e \<Rightarrow> (Inl e, s)
         | Inr membership \<Rightarrow> removeMember now teamId userId req s)"

section \<open>Notions used in the statements\<close>

text \<open>The active members of a team with the role \<open>OWNER\<close>.\<close>

definition activeOwners :: "world \<Rightarrow> string \<Rightarrow> teamMember list" where
  "activeOwners s teamId =
     filter (\<lambda>m. tm_teamId m = teamId \<and> tm_role m = ''OWNER'' \<and> tm_leftAt m = None)
       (teamMembers s)"

text \<open>
  An active membership of the actor in the team whose role implies the permission.
\<close>

definition activeMembershipGrants :: "world \<Rightarrow> string \<Rightarrow> string \<Rightarrow> string \<Rightarrow> bool" where
  "activeMembershipGrants s userId teamId permission =
     list_ex (\<lambda>m. tm_teamId m = teamId \<and> tm_userId m = userId \<and> tm_leftAt m = None
                 \<and> (case teamPermissions (tm_role m) of
                       None \<Rightarrow> False
                     | Some ps \<Rightarrow> permission \<in> set ps))
       (teamMembers s)"

text \<open>
  An assignment whose expiry instant is in the past.
\<close>

definition expiredInPast :: "time \<Rightarrow> userRole \<Rightarrow> bool" where
  "expiredInPast now ur = (case ur_expiresAt ur of None \<Rightarrow> False | Some e \<Rightarrow> e < now)"

text \<open>
  The correlation invariant of the incident table at the instant \<open>now\<close>: no two
  incidents of the same type that are both \<open>OPEN\<close> or \<open>INVESTIGATING\<close> and both
  detected within the last hour share an affected actor.
\<close>

definition activeInWindow :: "time \<Rightarrow> securityIncident \<Rightarrow> bool" where
  "activeInWindow now i =
     (si_status i \<in> set [''OPEN'', ''INVESTIGATING''] \<and> si_detectedAt i \<ge> now - 60 * 60 * 1000)"

definition correlated :: "time \<Rightarrow> securityIncident \<Rightarrow> securityIncident \<Rightarrow> bool" where
  "correlated now a b =
     (si_type a = si_type b \<and> activeInWindow now a \<and> activeInWindow now b
      \<and> list_ex (\<lambda>u. u \<in> set (si_affectedUsers a)) (si_affectedUsers b))"

fun uncorrelated :: "time \<Rightarrow> securityIncident list \<Rightarrow> bool" where
  "uncorrelated now [] = True"
| "uncorrelated now (x # xs) =
     (list_all (\<lambda>y. \<not> correlated now x y) xs \<and> uncorrelated now xs)"

definition dedupInvariant :: "time \<Rightarrow> world \<Rightarrow> bool" where
  "dedupInvariant now s = uncorrelated now (securityIncidents s)"

text \<open>
  The primary key of the incident table: identifiers are pairwise different and below the
  next identifier the storage layer will hand out.
\<close>

definition incidentKeys :: "world \<Rightarrow> bool" where
  "incidentKeys s =
     (distinct (map si_id (securityIncidents s))
      \<and> list_all (\<lambda>i. si_id i < nextId s) (securityIncidents s))"

definition bruteForceIncidents :: "world \<Rightarrow> securityIncident list" where
  "bruteForceIncidents s = filter (\<lambda>i. si_type i = ''BRUTE_FORCE'') (securityIncidents s)"

text \<open>The candidate of the brute-force check for an event and a count.\<close>

definition bruteForceCandidate :: "logOptions \<Rightarrow> nat \<Rightarrow> incidentData" where
  "bruteForceCandidate event recentFailures =
     \<lparr>id_type = ''BRUTE_FORCE'', id_severity = ''HIGH'',
      id_title = ''Multiple failed login attempts detected'',
      id_description =
        ''User '' @ the (lo_userId event) @ '' has '' @ show_nat recentFailures
        @ '' failed login attempts in the last 15 minutes from IP ''
        @ show_opt (lo_ipAddress event),
      id_affectedUsers = [the (lo_userId event)]\<rparr>"

text \<open>
  The failed-authentication entries of an actor in the log, created in the 15 minutes
  before \<open>now\<close>.
\<close>

definition recentFailures :: "time \<Rightarrow> string option \<Rightarrow> auditLog list \<Rightarrow> nat" where
  "recentFailures now userId ls =
     length (filter (\<lambda>l. al_userId l = userId \<and> al_action l = ''LOGIN_FAILED''
                        \<and> al_createdAt l \<ge> now - 15 * 60 * 1000) ls)"

text \<open>Recording a sequence of events, each at its instant.\<close>

fun logAll :: "(time \<times> logOptions) list \<Rightarrow> world \<Rightarrow> world" where
  "logAll [] s = s"
| "logAll (e # es) s = logAll es (snd (log (fst e) (snd e) s))"

text \<open>The kind of an error, as the error handler tells it.\<close>

fun isConflictError :: "error \<Rightarrow> bool" where
  "isConflictError (ConflictError m) = True"
| "isConflictError e = False"

fun isNotFoundError :: "error \<Rightarrow> bool" where
  "isNotFoundError (NotFoundError m) = True"
| "isNotFoundError e = False"

text \<open>The two errors of role assignment and revocation, with the messages of the source.\<close>

definition roleNotFound :: "string \<Rightarrow> error" where
  "roleNotFound roleName =
     Error (''Role '' @ [CHR 0x27] @ roleName @ [CHR 0x27] @ '' not found'')"

definition alreadyHasRole :: "string \<Rightarrow> error" where
  "alreadyHasRole roleName =
     Error (''User already has role '' @ [CHR 0x27] @ roleName @ [CHR 0x27])"

definition rejectedWith :: "(error \<Rightarrow> bool) \<Rightarrow> error + 'a \<Rightarrow> bool" where
  "rejectedWith P r = (case r of Inl e \<Rightarrow> P e | Inr x \<Rightarrow> False)"

section \<open>The scenario of the specification\<close>

text \<open>
  The role \<open>member\<close> of \<^verbatim>\<open>DEFAULT_ROLES\<close>; a state in which actor \<open>u1\<close> holds it and is
  \<open>LEAD\<close> of team \<open>t1\<close>, whose \<open>OWNER\<close> is \<open>u0\<close>; and the same state with the
  assignment of \<open>u1\<close> expired at instant 5.
\<close>

definition memberRole :: role where
  "memberRole =
     \<lparr>role_id = 3, role_name = ''member'',
      role_permissions =
        [''users:read'', ''teams:read'', ''projects:read'', ''projects:write'',
         ''documents:read'', ''documents:write'', ''github:read'', ''github:write'',
         ''ai:analyze''],
      role_isSystem = True\<rparr>"

definition emptyWorld :: world where
  "emptyWorld =
     \<lparr>roles = [], userRoles = [], teamMembers = [], auditLogs = [], securityIncidents = [],
      nextId = 0, faults = [], logged = []\<rparr>"

definition memberAssignment :: "time option \<Rightarrow> userRole" where
  "memberAssignment expiresAt =
     \<lparr>ur_userId = ''u1'', ur_roleId = 3, ur_grantedBy = ''u0'', ur_expiresAt = expiresAt\<rparr>"

definition exampleWorld :: world where
  "exampleWorld =
     emptyWorld
       \<lparr>roles := [memberRole],
        userRoles := [memberAssignment None],
        teamMembers := [\<lparr>tm_teamId = ''t1'', tm_userId = ''u0'', tm_role = ''OWNER'',
                         tm_leftAt = None\<rparr>,
                        \<lparr>tm_teamId = ''t1'', tm_userId = ''u1'', tm_role = ''LEAD'',
                         tm_leftAt = None\<rparr>],
        nextId := 4\<rparr>"

definition expiredWorld :: world where
  "expiredWorld = exampleWorld\<lparr>userRoles := [memberAssignment (Some 5)]\<rparr>"

text \<open>A request of actor \<open>u\<close> whose token carries the given roles and permissions.\<close>

definition requestOf :: "string \<Rightarrow> string list \<Rightarrow> string list \<Rightarrow> request" where
  "requestOf u rs ps =
     \<lparr>req_user = Some \<lparr>ru_userId = u, ru_email = u @ ''@example.com'', ru_roles = rs,
                        ru_permissions = ps\<rparr>,
      req_params_teamId = None, req_params_userId = None, req_body_teamId = None,
      req_body_role = None, req_clientIP = ''10.0.0.1'', req_userAgent = None\<rparr>"

text \<open>
  Requests of the owner \<open>u0\<close> and of the lead \<open>u1\<close>; the state after \<open>u0\<close> has removed
  \<open>u1\<close> from \<open>t1\<close> through the removal route at instant 7; and a team whose second
  owner \<open>u9\<close> left at instant 3.
\<close>

definition ownerRequest :: request where
  "ownerRequest = requestOf ''u0'' [''member''] []"

definition leadRequest :: request where
  "leadRequest = requestOf ''u1'' [''member''] []"

definition removedWorld :: world where
  "removedWorld = snd (route_removeMember 7 ''t1'' ''u1'' ownerRequest exampleWorld)"

definition departedOwnerWorld :: world where
  "departedOwnerWorld =
     exampleWorld
       \<lparr>teamMembers :=
          teamMembers exampleWorld
          @ [\<lparr>tm_teamId = ''t1'', tm_userId = ''u9'', tm_role = ''OWNER'',
              tm_leftAt = Some 3\<rparr>]\<rparr>"

section \<open>Notions used in the statements about incidents\<close>


text \<open>
  Merging a candidate into the incident the duplicate search found: what the update of
  \<open>createSecurityIncident\<close> does to the table.
\<close>

definition mergeInto ::
  "securityIncident \<Rightarrow> incidentData \<Rightarrow> securityIncident list \<Rightarrow> securityIncident list" where
  "mergeInto ex incident xs =
     map (\<lambda>y. if si_id y = si_id ex
               then y\<lparr>si_description :=
                        si_description ex @ [CHR 0x0A] @ id_description incident\<rparr>
               else y) xs"

text \<open>
  \<open>onlyOpened xs ys\<close>: the table \<open>ys\<close> has the incidents of \<open>xs\<close> in place, each with
  the status it had, followed by new incidents that all are \<open>OPEN\<close>.
  \<open>markResolved i xs\<close> is \<open>xs\<close> with status \<open>RESOLVED\<close> for the identifier \<open>i\<close>.
\<close>

definition onlyOpened :: "securityIncident list \<Rightarrow> securityIncident list \<Rightarrow> bool" where
  "onlyOpened xs ys =
     (length xs \<le> length ys
      \<and> map si_status (take (length xs) ys) = map si_status xs
      \<and> list_all (\<lambda>y. si_status y = ''OPEN'') (drop (length xs) ys))"

definition markResolved :: "nat \<Rightarrow> securityIncident list \<Rightarrow> securityIncident list" where
  "markResolved i xs =
     map (\<lambda>y. if si_id y = i then y\<lparr>si_status := ''RESOLVED''\<rparr> else y) xs"

text \<open>
  A run of failed authentications of the actor \<open>u\<close>: events with their instants, in the
  order of time, all within 15 minutes of the last one. \<open>quietStart\<close> is a state in
  which no storage call will fail, with no brute-force incident and no earlier failed
  authentication of \<open>u\<close>. \<open>entriesOf\<close> are the log entries of the events.
\<close>

definition failedLoginBurst :: "string \<Rightarrow> (time \<times> logOptions) list \<Rightarrow> bool" where
  "failedLoginBurst u es =
     (u \<noteq> []
      \<and> list_all (\<lambda>e. lo_userId (snd e) = Some u \<and> lo_action (snd e) = ''LOGIN_FAILED'') es
      \<and> sorted (map fst es)
      \<and> list_all (\<lambda>e. fst (last es) \<le> fst e + 15 * 60 * 1000) es)"

definition quietStart :: "string \<Rightarrow> world \<Rightarrow> bool" where
  "quietStart u s =
     (faults s = [] \<and> incidentKeys s \<and> bruteForceIncidents s = []
      \<and> list_all (\<lambda>l. \<not> (al_userId l = Some u \<and> al_action l = ''LOGIN_FAILED''))
           (auditLogs s))"

definition entriesOf :: "(time \<times> logOptions) list \<Rightarrow> auditLog list" where
  "entriesOf es = map (\<lambda>e. newAuditLog (fst e) (snd e)) es"

section \<open>Scenarios of the audit service\<close>

text \<open>
  A failed authentication of an actor from an address; six of them for \<open>u1\<close> within six
  seconds; the incident the fifth one raises; a table that holds it; and a table with one
  \<open>FALSE_POSITIVE\<close> and one \<open>OPEN\<close> incident.
\<close>

definition failedLogin :: "string \<Rightarrow> string \<Rightarrow> logOptions" where
  "failedLogin u ip =
     \<lparr>lo_userId = Some u, lo_action = ''LOGIN_FAILED'', lo_resource = ''Auth'',
      lo_resourceId = None, lo_details = [], lo_ipAddress = Some ip, lo_userAgent = None,
      lo_status = Some ''FAILURE'', lo_errorMessage = Some ''Invalid credentials'',
      lo_duration = None\<rparr>"

definition burst :: "(time \<times> logOptions) list" where
  "burst =
     [(1000, failedLogin ''u1'' ''10.0.0.1''), (2000, failedLogin ''u1'' ''10.0.0.1''),
      (3000, failedLogin ''u1'' ''10.0.0.2''), (4000, failedLogin ''u1'' ''10.0.0.1''),
      (5000, failedLogin ''u1'' ''10.0.0.2''), (6000, failedLogin ''u1'' ''10.0.0.3'')]"

definition bruteIncident :: securityIncident where
  "bruteIncident =
     newIncident 0 5000 (bruteForceCandidate (failedLogin ''u1'' ''10.0.0.2'') 5)"

definition incidentWorld :: world where
  "incidentWorld = emptyWorld\<lparr>securityIncidents := [bruteIncident], nextId := 1\<rparr>"

text \<open>A table that holds the incident of the fifth failure after it was resolved.\<close>

definition resolvedWorld :: world where
  "resolvedWorld =
     emptyWorld\<lparr>securityIncidents := [bruteIncident\<lparr>si_status := ''RESOLVED''\<rparr>],
                nextId := 1\<rparr>"

definition closedWorld :: world where
  "closedWorld =
     emptyWorld\<lparr>securityIncidents :=
                  [bruteIncident\<lparr>si_status := ''FALSE_POSITIVE''\<rparr>,
                   bruteIncident\<lparr>si_id := 1\<rparr>],
                nextId := 2\<rparr>"

section \<open>Role resolution\<close>

lemmas scenario_defs =
  exampleWorld_def expiredWorld_def emptyWorld_def memberRole_def memberAssignment_def
  requestOf_def

lemma filter_removeAll_unsat: "\<not> P x \<Longrightarrow> filter P (removeAll x xs) = filter P xs"
  by (induction xs) auto

lemma find_removeAll_unsat: "\<not> P x \<Longrightarrow> find P (removeAll x xs) = find P xs"
  by (induction xs) auto

lemma find_None_iff_all: "find P xs = None \<longleftrightarrow> (\<forall>x\<in>set xs. \<not> P x)"
  by (induction xs) auto

lemma expiredInPast_not_notExpired: "expiredInPast now ur \<Longrightarrow> \<not> notExpired now ur"
  by (auto simp: expiredInPast_def notExpired_def split: option.splits)

lemma findUserRoles_removeAll:
  "\<not> notExpired now ur \<Longrightarrow>
   findUserRoles now (s\<lparr>userRoles := removeAll ur (userRoles s)\<rparr>) userId
     = findUserRoles now s userId"
  by (simp add: findUserRoles_def roleOf_def filter_removeAll_unsat)

lemma hasRole_removeAll:
  "\<not> notExpired now ur \<Longrightarrow>
   hasRole now (s\<lparr>userRoles := removeAll ur (userRoles s)\<rparr>) userId roleName
     = hasRole now s userId roleName"
  by (simp add: hasRole_def roleOf_def find_removeAll_unsat)

lemma findUserRoles_none:
  "\<forall>ur \<in> set (userRoles s). ur_userId ur = userId \<longrightarrow> \<not> notExpired now ur \<Longrightarrow>
   findUserRoles now s userId = []"
  by (auto simp: findUserRoles_def List.map_filter_simps filter_empty_conv)

lemma set_findUserRoles:
  "set (findUserRoles now s u) =
   {(a, r). a \<in> set (userRoles s) \<and> ur_userId a = u \<and> notExpired now a
            \<and> roleOf s a = Some r}"
proof -
  have "set (List.map_filter f xs) = {y. \<exists>x\<in>set xs. f x = Some y}"
    for f :: "userRole \<Rightarrow> (userRole \<times> role) option" and xs
    by (induction xs) (auto simp: List.map_filter_simps split: option.splits)
  then show ?thesis
    by (auto simp: findUserRoles_def split: option.splits)
qed

lemma hasPermission_loop_iff:
  "hasPermission_loop xs p \<longleftrightarrow> (\<exists>x\<in>set xs. p \<in> set (role_permissions (snd x)))"
  by (induction xs) auto

text \<open>
  What the three resolution queries compute: only assignments that pass the expiry filter
  count.
\<close>

lemma hasPermission_iff:
  "hasPermission now s u p \<longleftrightarrow>
   (\<exists>a\<in>set (userRoles s). ur_userId a = u \<and> notExpired now a
       \<and> (\<exists>r. roleOf s a = Some r \<and> p \<in> set (role_permissions r)))"
  by (auto simp: hasPermission_def hasPermission_loop_iff set_findUserRoles)

lemma hasRole_iff:
  "hasRole now s u rn \<longleftrightarrow>
   (\<exists>a\<in>set (userRoles s). ur_userId a = u \<and> notExpired now a
       \<and> (\<exists>r. roleOf s a = Some r \<and> role_name r = rn))"
proof -
  let ?P = "\<lambda>ur. ur_userId ur = u
                \<and> (case roleOf s ur of None \<Rightarrow> False | Some r \<Rightarrow> role_name r = rn)
                \<and> notExpired now ur"
  have "hasRole now s u rn \<longleftrightarrow> find ?P (userRoles s) \<noteq> None"
    by (simp add: hasRole_def split: option.splits)
  also have "\<dots> \<longleftrightarrow> (\<exists>a\<in>set (userRoles s). ?P a)"
    unfolding find_None_iff_all by blast
  also have "\<dots> \<longleftrightarrow> (\<exists>a\<in>set (userRoles s). ur_userId a = u \<and> notExpired now a
       \<and> (\<exists>r. roleOf s a = Some r \<and> role_name r = rn))"
    by (auto split: option.splits)
  finally show ?thesis .
qed

lemma set_fold_set_add: "set (fold set_add ps acc) = set ps \<union> set acc"
  by (induction ps arbitrary: acc) (auto simp: set_add_def)

lemma set_getUserPermissions:
  "set (getUserPermissions now s u) =
   {p. \<exists>a\<in>set (userRoles s). ur_userId a = u \<and> notExpired now a
         \<and> (\<exists>r. roleOf s a = Some r \<and> p \<in> set (role_permissions r))}"
proof -
  have "set (fold (\<lambda>ur ps. fold set_add (role_permissions (snd ur)) ps) xs acc)
          = (\<Union>x\<in>set xs. set (role_permissions (snd x))) \<union> set acc"
    for xs :: "(userRole \<times> role) list" and acc
    by (induction xs arbitrary: acc) (auto simp: set_fold_set_add)
  then have "set (getUserPermissions now s u)
               = (\<Union>x\<in>set (findUserRoles now s u). set (role_permissions (snd x)))"
    by (simp add: getUserPermissions_def)
  also have "\<dots> = {p. \<exists>a\<in>set (userRoles s). ur_userId a = u \<and> notExpired now a
         \<and> (\<exists>r. roleOf s a = Some r \<and> p \<in> set (role_permissions r))}"
    unfolding set_findUserRoles by fastforce
  finally show ?thesis .
qed

text \<open>
  Claim C2. An assignment whose expiry instant is in the past is excluded from every
  resolution query: taking it out of the ledger changes neither the effective
  permissions (\<open>getUserPermissions\<close>), nor \<open>hasPermission\<close>, nor \<open>hasRole\<close>. Hence an
  actor none of whose assignments passes the expiry filter has the empty set of
  effective permissions.
\<close>

theorem expired_assignment_excluded:
  "(expiredInPast now ur \<longrightarrow>
      getUserPermissions now (s\<lparr>userRoles := removeAll ur (userRoles s)\<rparr>) userId
        = getUserPermissions now s userId
    \<and> hasPermission now (s\<lparr>userRoles := removeAll ur (userRoles s)\<rparr>) userId permission
        = hasPermission now s userId permission
    \<and> hasRole now (s\<lparr>userRoles := removeAll ur (userRoles s)\<rparr>) userId roleName
        = hasRole now s userId roleName)
   \<and> ((\<forall>a \<in> set (userRoles s). ur_userId a = userId \<longrightarrow> \<not> notExpired now a) \<longrightarrow>
        getUserPermissions now s userId = [])"
  by (simp add: getUserPermissions_def hasPermission_def findUserRoles_removeAll
      hasRole_removeAll expiredInPast_not_notExpired findUserRoles_none)

theorem expired_assignment_excluded_witness:
  "expiredInPast 10 (memberAssignment (Some 5))
   \<and> getUserPermissions 10
        (expiredWorld\<lparr>userRoles := removeAll (memberAssignment (Some 5))
                                     (userRoles expiredWorld)\<rparr>) ''u1''
       = getUserPermissions 10 expiredWorld ''u1''
   \<and> hasPermission 10
        (expiredWorld\<lparr>userRoles := removeAll (memberAssignment (Some 5))
                                     (userRoles expiredWorld)\<rparr>) ''u1'' ''teams:read''
       = hasPermission 10 expiredWorld ''u1'' ''teams:read''
   \<and> hasRole 10
        (expiredWorld\<lparr>userRoles := removeAll (memberAssignment (Some 5))
                                     (userRoles expiredWorld)\<rparr>) ''u1'' ''member''
       = hasRole 10 expiredWorld ''u1'' ''member''
   \<and> userRoles expiredWorld = [memberAssignment (Some 5)]
   \<and> \<not> notExpired 10 (memberAssignment (Some 5))
   \<and> getUserPermissions 10 expiredWorld ''u1'' = []
   \<and> getUserPermissions 10 exampleWorld ''u1'' = role_permissions memberRole"
  using expired_assignment_excluded
    [of 10 "memberAssignment (Some 5)" expiredWorld "''u1''" "''teams:read''" "''member''"]
  by (simp add: scenario_defs expiredInPast_def notExpired_def getUserPermissions_def
      findUserRoles_def roleOf_def List.map_filter_simps set_add_def)

section \<open>Team-scoped permissions\<close>

lemmas rbac_defs =
  hasTeamPermission_def hasPermission_def findUserRoles_def roleOf_def notExpired_def
  List.map_filter_simps findTeamMember_def teamPermissions_def

lemmas io_defs = bindE_def returnE_def try_catch_def storageCall_def logger_def

lemmas audit_defs =
  log_def auditLine_def newAuditLog_def auditLog_create_def detectSuspiciousActivity_def
  bruteForceCheck_def sensitiveAccessCheck_def multipleIPCheck_def auditLog_count_def
  auditLog_distinctIPs_def createSecurityIncident_def securityIncident_findFirst_def
  securityIncident_update_def securityIncident_create_def newIncident_def
  matchesCandidate_def truthy_def

lemmas route_defs =
  route_updateMemberRole_def route_removeMember_def bindParams_def
  requireTeamMembership_def roleHierarchy_def updateMemberRole_def removeMember_def
  teamMember_update_def logAction_def findTeamMember_def ownerRequest_def leadRequest_def

text \<open>
  What \<open>hasTeamPermission\<close> computes: the global check, or else the table entry of the
  role in the row of the pair (team, actor), whether or not the member has left.
\<close>

lemma hasTeamPermission_iff:
  "hasTeamPermission now s u t p \<longleftrightarrow>
     hasPermission now s u p
     \<or> (\<exists>m ps. findTeamMember s t u = Some m \<and> teamPermissions (tm_role m) = Some ps
                \<and> p \<in> set ps)"
  by (auto simp: hasTeamPermission_def split: option.splits)

text \<open>The scenario of the specification: \<open>u1\<close> is \<open>member\<close> globally and \<open>LEAD\<close> of \<open>t1\<close>.\<close>

lemma scenario_team_permissions:
  "\<not> hasPermission 10 exampleWorld ''u1'' ''teams:write''
   \<and> hasTeamPermission 10 exampleWorld ''u1'' ''t1'' ''teams:manage_members''
   \<and> \<not> hasTeamPermission 10 exampleWorld ''u1'' ''t2'' ''teams:manage_members''"
  by (simp add: scenario_defs rbac_defs)

lemma removedWorld_teamMembers:
  "teamMembers removedWorld
   = [\<lparr>tm_teamId = ''t1'', tm_userId = ''u0'', tm_role = ''OWNER'', tm_leftAt = None\<rparr>,
      \<lparr>tm_teamId = ''t1'', tm_userId = ''u1'', tm_role = ''LEAD'', tm_leftAt = Some 7\<rparr>]"
  by (simp add: removedWorld_def scenario_defs route_defs io_defs audit_defs)

lemma removedWorld_roles:
  "roles removedWorld = [memberRole] \<and> userRoles removedWorld = [memberAssignment None]"
  by (simp add: removedWorld_def scenario_defs route_defs io_defs audit_defs)

text \<open>
  Claim C1, at the input where the code departs from it. After the owner has removed
  \<open>u1\<close> from team \<open>t1\<close> through the removal route (which answers 200, "Member removed
  from team", and stamps \<open>leftAt\<close>), \<open>u1\<close> has no global permission
  \<open>teams:manage_members\<close> and no active membership in \<open>t1\<close>, and yet
  \<open>hasTeamPermission\<close> answers true: its lookup does not read \<open>leftAt\<close>.
\<close>

theorem hasTeamPermission_ignores_leftAt:
  "fst (route_removeMember 7 ''t1'' ''u1'' ownerRequest exampleWorld)
     = Inr \<lparr>res_status = 200, res_success = True, res_text = ''Member removed from team''\<rparr>
   \<and> findTeamMember removedWorld ''t1'' ''u1''
     = Some \<lparr>tm_teamId = ''t1'', tm_userId = ''u1'', tm_role = ''LEAD'', tm_leftAt = Some 7\<rparr>
   \<and> \<not> hasPermission 10 removedWorld ''u1'' ''teams:manage_members''
   \<and> \<not> activeMembershipGrants removedWorld ''u1'' ''t1'' ''teams:manage_members''
   \<and> hasTeamPermission 10 removedWorld ''u1'' ''t1'' ''teams:manage_members''"
proof -
  have 1: "fst (route_removeMember 7 ''t1'' ''u1'' ownerRequest exampleWorld)
     = Inr \<lparr>res_status = 200, res_success = True, res_text = ''Member removed from team''\<rparr>"
    by (simp add: scenario_defs route_defs io_defs audit_defs)
  have 2: "findTeamMember removedWorld ''t1'' ''u1''
     = Some \<lparr>tm_teamId = ''t1'', tm_userId = ''u1'', tm_role = ''LEAD'', tm_leftAt = Some 7\<rparr>"
    by (simp add: findTeamMember_def removedWorld_teamMembers)
  have 3: "\<not> hasPermission 10 removedWorld ''u1'' ''teams:manage_members''"
    by (simp add: hasPermission_def findUserRoles_def roleOf_def notExpired_def
        List.map_filter_simps removedWorld_roles memberRole_def memberAssignment_def)
  have 4: "\<not> activeMembershipGrants removedWorld ''u1'' ''t1'' ''teams:manage_members''"
    by (simp add: activeMembershipGrants_def removedWorld_teamMembers)
  have 5: "hasTeamPermission 10 removedWorld ''u1'' ''t1'' ''teams:manage_members''"
    using 2 by (simp add: hasTeamPermission_iff teamPermissions_def)
  from 1 2 3 4 5 show ?thesis by blast
qed

section \<open>The last owner of a team\<close>

text \<open>
  Claim C3, at the inputs where the code departs from it. In team \<open>t1\<close>, whose only
  owner is \<open>u0\<close>: the removal route refuses to remove \<open>u0\<close> (status 400, "Cannot remove
  the last owner. Transfer ownership first."), but the update route, which has no such
  check, lets \<open>u0\<close> be demoted to \<open>MEMBER\<close> and leaves the team without an owner. And
  when a second owner has already left the team, the removal route counts the departed
  owner's row and lets the last active owner be removed.
\<close>

theorem last_owner_demoted_or_removed:
  "map tm_userId (activeOwners exampleWorld ''t1'') = [''u0'']
   \<and> fst (route_removeMember 7 ''t1'' ''u0'' leadRequest exampleWorld)
       = Inr \<lparr>res_status = 400, res_success = False,
              res_text = ''Cannot remove the last owner. Transfer ownership first.''\<rparr>
   \<and> fst (route_updateMemberRole ''t1'' ''u0''
             (ownerRequest\<lparr>req_body_role := Some ''MEMBER''\<rparr>) exampleWorld)
       = Inr \<lparr>res_status = 200, res_success = True, res_text = []\<rparr>
   \<and> activeOwners
        (snd (route_updateMemberRole ''t1'' ''u0''
                (ownerRequest\<lparr>req_body_role := Some ''MEMBER''\<rparr>) exampleWorld)) ''t1''
       = []
   \<and> map tm_userId (activeOwners departedOwnerWorld ''t1'') = [''u0'']
   \<and> fst (route_removeMember 7 ''t1'' ''u0'' leadRequest departedOwnerWorld)
       = Inr \<lparr>res_status = 200, res_success = True, res_text = ''Member removed from team''\<rparr>
   \<and> activeOwners (snd (route_removeMember 7 ''t1'' ''u0'' leadRequest departedOwnerWorld))
        ''t1'' = []"
proof -
  have 1: "map tm_userId (activeOwners exampleWorld ''t1'') = [''u0'']"
    by (simp add: activeOwners_def scenario_defs)
  have 2: "fst (route_removeMember 7 ''t1'' ''u0'' leadRequest exampleWorld)
       = Inr \<lparr>res_status = 400, res_success = False,
              res_text = ''Cannot remove the last owner. Transfer ownership first.''\<rparr>"
    by (simp add: scenario_defs route_defs io_defs truthy_def)
  have 3: "fst (route_updateMemberRole ''t1'' ''u0''
             (ownerRequest\<lparr>req_body_role := Some ''MEMBER''\<rparr>) exampleWorld)
       = Inr \<lparr>res_status = 200, res_success = True, res_text = []\<rparr>"
    by (simp add: scenario_defs route_defs io_defs truthy_def)
  have 4: "activeOwners
        (snd (route_updateMemberRole ''t1'' ''u0''
                (ownerRequest\<lparr>req_body_role := Some ''MEMBER''\<rparr>) exampleWorld)) ''t1''
       = []"
    by (simp add: scenario_defs route_defs io_defs truthy_def activeOwners_def)
  have 5: "map tm_userId (activeOwners departedOwnerWorld ''t1'') = [''u0'']"
    by (simp add: activeOwners_def departedOwnerWorld_def scenario_defs)
  have 6: "fst (route_removeMember 7 ''t1'' ''u0'' leadRequest departedOwnerWorld)
       = Inr \<lparr>res_status = 200, res_success = True, res_text = ''Member removed from team''\<rparr>"
    by (simp add: departedOwnerWorld_def scenario_defs route_defs io_defs audit_defs)
  have 7: "activeOwners (snd (route_removeMember 7 ''t1'' ''u0'' leadRequest departedOwnerWorld))
        ''t1'' = []"
    by (simp add: departedOwnerWorld_def scenario_defs route_defs io_defs audit_defs
        activeOwners_def)
  from 1 2 3 4 5 6 7 show ?thesis by blast
qed

section \<open>Role assignment and revocation\<close>

lemma assignRole_unknown:
  "findRoleByName s rn = None \<Longrightarrow> assignRole s u rn g x = Inl (roleNotFound rn)"
  by (simp add: assignRole_def roleNotFound_def)

lemma assignRole_duplicate:
  assumes r: "findRoleByName s rn = Some r"
    and a: "a \<in> set (userRoles s)" "ur_userId a = u" "ur_roleId a = role_id r"
  shows "assignRole s u rn g x = Inl (alreadyHasRole rn)"
proof -
  from a have "find (\<lambda>ur. ur_userId ur = u \<and> ur_roleId ur = role_id r) (userRoles s) \<noteq> None"
    by (auto simp: find_None_iff_all)
  with r show ?thesis
    by (auto simp: assignRole_def alreadyHasRole_def)
qed

lemma assignRole_fresh:
  assumes r: "findRoleByName s rn = Some r"
    and n: "\<forall>a\<in>set (userRoles s). \<not> (ur_userId a = u \<and> ur_roleId a = role_id r)"
  shows "assignRole s u rn g x =
     Inr (s\<lparr>userRoles := userRoles s @
            [\<lparr>ur_userId = u, ur_roleId = role_id r, ur_grantedBy = g, ur_expiresAt = x\<rparr>]\<rparr>)"
proof -
  from n have "find (\<lambda>ur. ur_userId ur = u \<and> ur_roleId ur = role_id r) (userRoles s) = None"
    by (simp add: find_None_iff_all)
  with r show ?thesis by (simp add: assignRole_def)
qed

lemma assignRole_Inr_cases:
  "assignRole s u rn g x = Inr s1 \<Longrightarrow>
   \<exists>r. findRoleByName s rn = Some r
     \<and> (\<forall>a\<in>set (userRoles s). \<not> (ur_userId a = u \<and> ur_roleId a = role_id r))
     \<and> s1 = s\<lparr>userRoles := userRoles s @
            [\<lparr>ur_userId = u, ur_roleId = role_id r, ur_grantedBy = g, ur_expiresAt = x\<rparr>]\<rparr>"
  by (auto simp: assignRole_def find_None_iff_all split: option.splits)

lemma revokeRole_known:
  "findRoleByName s rn = Some r \<Longrightarrow>
   revokeRole s u rn =
     Inr (s\<lparr>userRoles := filter (\<lambda>a. \<not> (ur_userId a = u \<and> ur_roleId a = role_id r))
                            (userRoles s)\<rparr>)"
  by (simp add: revokeRole_def)

lemma revokeRole_unknown:
  "findRoleByName s rn = None \<Longrightarrow> revokeRole s u rn = Inl (roleNotFound rn)"
  by (simp add: revokeRole_def roleNotFound_def)

lemma findRoleByName_userRoles:
  "findRoleByName (s\<lparr>userRoles := xs\<rparr>) rn = findRoleByName s rn"
  by (simp add: findRoleByName_def)

lemma revoke_then_assign:
  assumes r: "findRoleByName s rn = Some r"
  shows "\<exists>s1 s2. revokeRole s u rn = Inr s1 \<and> assignRole s1 u rn g x = Inr s2"
proof -
  let ?s1 = "s\<lparr>userRoles := filter (\<lambda>a. \<not> (ur_userId a = u \<and> ur_roleId a = role_id r))
                              (userRoles s)\<rparr>"
  have 1: "revokeRole s u rn = Inr ?s1" using r by (rule revokeRole_known)
  have 2: "findRoleByName ?s1 rn = Some r" using r by (simp add: findRoleByName_userRoles)
  have 3: "\<forall>a\<in>set (userRoles ?s1). \<not> (ur_userId a = u \<and> ur_roleId a = role_id r)" by simp
  from assignRole_fresh [OF 2 3] 1 show ?thesis by blast
qed

text \<open>
  Claim C8 as stated fails on the kind of the error: a duplicate assignment and an unknown
  role are both rejected with a plain \<open>Error\<close>, not with a \<open>ConflictError\<close> and a
  \<open>NotFoundError\<close>. In the scenario, \<open>u1\<close> already holds \<open>member\<close>, and no role is
  named \<open>auditor\<close>.
\<close>

theorem assignRole_error_kind_counterexample:
  "assignRole exampleWorld ''u1'' ''member'' ''u0'' None = Inl (alreadyHasRole ''member'')
   \<and> \<not> rejectedWith isConflictError (assignRole exampleWorld ''u1'' ''member'' ''u0'' None)
   \<and> assignRole exampleWorld ''u1'' ''auditor'' ''u0'' None = Inl (roleNotFound ''auditor'')
   \<and> \<not> rejectedWith isNotFoundError (assignRole exampleWorld ''u1'' ''auditor'' ''u0'' None)"
  by (simp add: scenario_defs rejectedWith_def assignRole_def findRoleByName_def
      alreadyHasRole_def roleNotFound_def)

text \<open>
  Claim C8, amended. \<open>assignRole\<close> rejects an unknown role name with the plain error
  "Role '...' not found" (and so does \<open>revokeRole\<close>), and rejects an assignment of a
  role the actor already has a row for with the plain error "User already has role
  '...'". For a known role, \<open>revokeRole\<close> leaves the state as it is when the actor has
  no assignment of it. Assigning the same pair twice fails the second time, and after
  \<open>revokeRole\<close> the assignment succeeds again.
\<close>

theorem assignRole_revokeRole_errors:
  "(findRoleByName s rn = None \<longrightarrow>
      assignRole s u rn g x = Inl (roleNotFound rn)
      \<and> revokeRole s u rn = Inl (roleNotFound rn))
   \<and> (\<forall>r. findRoleByName s rn = Some r \<longrightarrow>
        ((\<exists>a\<in>set (userRoles s). ur_userId a = u \<and> ur_roleId a = role_id r) \<longrightarrow>
           assignRole s u rn g x = Inl (alreadyHasRole rn))
        \<and> ((\<forall>a\<in>set (userRoles s). \<not> (ur_userId a = u \<and> ur_roleId a = role_id r)) \<longrightarrow>
           revokeRole s u rn = Inr s))
   \<and> (\<forall>s1. assignRole s u rn g x = Inr s1 \<longrightarrow>
        assignRole s1 u rn g' x' = Inl (alreadyHasRole rn)
        \<and> (\<exists>s2 s3. revokeRole s1 u rn = Inr s2 \<and> assignRole s2 u rn g' x' = Inr s3))"
proof (intro conjI allI impI)
  assume "findRoleByName s rn = None"
  then show "assignRole s u rn g x = Inl (roleNotFound rn)" by (rule assignRole_unknown)
next
  assume "findRoleByName s rn = None"
  then show "revokeRole s u rn = Inl (roleNotFound rn)" by (rule revokeRole_unknown)
next
  fix r assume "findRoleByName s rn = Some r"
    and "\<exists>a\<in>set (userRoles s). ur_userId a = u \<and> ur_roleId a = role_id r"
  then show "assignRole s u rn g x = Inl (alreadyHasRole rn)"
    by (auto intro: assignRole_duplicate)
next
  fix r assume r: "findRoleByName s rn = Some r"
    and n: "\<forall>a\<in>set (userRoles s). \<not> (ur_userId a = u \<and> ur_roleId a = role_id r)"
  from n have "filter (\<lambda>a. \<not> (ur_userId a = u \<and> ur_roleId a = role_id r)) (userRoles s)
                 = userRoles s"
    by (simp add: filter_id_conv)
  with revokeRole_known [OF r, of u] show "revokeRole s u rn = Inr s" by simp
next
  fix s1 assume a: "assignRole s u rn g x = Inr s1"
  from assignRole_Inr_cases [OF a] obtain r where r: "findRoleByName s rn = Some r"
    and s1: "s1 = s\<lparr>userRoles := userRoles s @
            [\<lparr>ur_userId = u, ur_roleId = role_id r, ur_grantedBy = g, ur_expiresAt = x\<rparr>]\<rparr>"
    by blast
  have r1: "findRoleByName s1 rn = Some r" using r s1 by (simp add: findRoleByName_userRoles)
  show "assignRole s1 u rn g' x' = Inl (alreadyHasRole rn)"
    by (rule assignRole_duplicate [OF r1, where a = "\<lparr>ur_userId = u, ur_roleId = role_id r,
          ur_grantedBy = g, ur_expiresAt = x\<rparr>"]) (simp_all add: s1)
next
  fix s1 assume a: "assignRole s u rn g x = Inr s1"
  from assignRole_Inr_cases [OF a] obtain r where r: "findRoleByName s rn = Some r"
    and s1: "s1 = s\<lparr>userRoles := userRoles s @
            [\<lparr>ur_userId = u, ur_roleId = role_id r, ur_grantedBy = g, ur_expiresAt = x\<rparr>]\<rparr>"
    by blast
  have r1: "findRoleByName s1 rn = Some r" using r s1 by (simp add: findRoleByName_userRoles)
  from revoke_then_assign [OF r1]
  show "\<exists>s2 s3. revokeRole s1 u rn = Inr s2 \<and> assignRole s2 u rn g' x' = Inr s3" by blast
qed

theorem assignRole_revokeRole_errors_witness:
  "findRoleByName exampleWorld ''auditor'' = None
   \<and> assignRole exampleWorld ''u2'' ''auditor'' ''u0'' None = Inl (roleNotFound ''auditor'')
   \<and> revokeRole exampleWorld ''u2'' ''auditor'' = Inl (roleNotFound ''auditor'')
   \<and> findRoleByName exampleWorld ''member'' = Some memberRole
   \<and> memberAssignment None \<in> set (userRoles exampleWorld)
   \<and> assignRole exampleWorld ''u1'' ''member'' ''u0'' None = Inl (alreadyHasRole ''member'')
   \<and> revokeRole exampleWorld ''u2'' ''member'' = Inr exampleWorld
   \<and> assignRole exampleWorld ''u2'' ''member'' ''u0'' None
       = Inr (exampleWorld\<lparr>userRoles := [memberAssignment None,
                \<lparr>ur_userId = ''u2'', ur_roleId = 3, ur_grantedBy = ''u0'',
                  ur_expiresAt = None\<rparr>]\<rparr>)
   \<and> assignRole
        (exampleWorld\<lparr>userRoles := [memberAssignment None,
                \<lparr>ur_userId = ''u2'', ur_roleId = 3, ur_grantedBy = ''u0'',
                  ur_expiresAt = None\<rparr>]\<rparr>) ''u2'' ''member'' ''u0'' None
       = Inl (alreadyHasRole ''member'')
   \<and> revokeRole
        (exampleWorld\<lparr>userRoles := [memberAssignment None,
                \<lparr>ur_userId = ''u2'', ur_roleId = 3, ur_grantedBy = ''u0'',
                  ur_expiresAt = None\<rparr>]\<rparr>) ''u2'' ''member''
       = Inr exampleWorld"
  using assignRole_revokeRole_errors
          [of exampleWorld "''auditor''" "''u2''" "''u0''" None "''u0''" None]
        assignRole_revokeRole_errors
          [of exampleWorld "''member''" "''u1''" "''u0''" None "''u0''" None]
        assignRole_revokeRole_errors
          [of exampleWorld "''member''" "''u2''" "''u0''" None "''u0''" None]
  by (simp add: scenario_defs findRoleByName_def assignRole_def revokeRole_def
      roleNotFound_def alreadyHasRole_def)

text \<open>
  Claim C9. When the actor has a row for the role whose expiry instant is in the past,
  \<open>assignRole\<close> rejects a new assignment of that role as a duplicate, although the
  resolution queries treat the row as absent (removing it changes neither \<open>hasRole\<close>
  nor \<open>hasPermission\<close>, and when it is the actor's only row both are false). After
  \<open>revokeRole\<close> the assignment succeeds.
\<close>

theorem assignRole_rejects_expired_duplicate:
  assumes "findRoleByName s rn = Some r"
    and "a \<in> set (userRoles s)" and "ur_userId a = u" and "ur_roleId a = role_id r"
    and "expiredInPast now a"
  shows "assignRole s u rn g x = Inl (alreadyHasRole rn)
     \<and> hasRole now s u rn = hasRole now (s\<lparr>userRoles := removeAll a (userRoles s)\<rparr>) u rn
     \<and> hasPermission now s u p
         = hasPermission now (s\<lparr>userRoles := removeAll a (userRoles s)\<rparr>) u p
     \<and> ((\<forall>b\<in>set (userRoles s). ur_userId b = u \<longrightarrow> b = a) \<longrightarrow>
          \<not> hasRole now s u rn \<and> \<not> hasPermission now s u p)
     \<and> (\<exists>s1 s2. revokeRole s u rn = Inr s1 \<and> assignRole s1 u rn g x = Inr s2)"
proof -
  have ne: "\<not> notExpired now a" using assms(5) by (rule expiredInPast_not_notExpired)
  have 1: "assignRole s u rn g x = Inl (alreadyHasRole rn)"
    using assms(1-4) by (rule assignRole_duplicate)
  have 2: "hasRole now s u rn
             = hasRole now (s\<lparr>userRoles := removeAll a (userRoles s)\<rparr>) u rn"
    using ne by (simp add: hasRole_removeAll)
  have 3: "hasPermission now s u p
             = hasPermission now (s\<lparr>userRoles := removeAll a (userRoles s)\<rparr>) u p"
    using ne by (simp add: hasPermission_def findUserRoles_removeAll)
  have 4: "(\<forall>b\<in>set (userRoles s). ur_userId b = u \<longrightarrow> b = a) \<longrightarrow>
          \<not> hasRole now s u rn \<and> \<not> hasPermission now s u p"
    using ne by (auto simp: hasRole_iff hasPermission_iff)
  have 5: "\<exists>s1 s2. revokeRole s u rn = Inr s1 \<and> assignRole s1 u rn g x = Inr s2"
    using assms(1) by (rule revoke_then_assign)
  from 1 2 3 4 5 show ?thesis by blast
qed

theorem assignRole_rejects_expired_duplicate_witness:
  "findRoleByName expiredWorld ''member'' = Some memberRole
   \<and> userRoles expiredWorld = [memberAssignment (Some 5)]
   \<and> ur_userId (memberAssignment (Some 5)) = ''u1''
   \<and> ur_roleId (memberAssignment (Some 5)) = role_id memberRole
   \<and> expiredInPast 10 (memberAssignment (Some 5))
   \<and> assignRole expiredWorld ''u1'' ''member'' ''u0'' None = Inl (alreadyHasRole ''member'')
   \<and> \<not> hasRole 10 expiredWorld ''u1'' ''member''
   \<and> \<not> hasPermission 10 expiredWorld ''u1'' ''teams:read''
   \<and> revokeRole expiredWorld ''u1'' ''member'' = Inr (expiredWorld\<lparr>userRoles := []\<rparr>)
   \<and> assignRole (expiredWorld\<lparr>userRoles := []\<rparr>) ''u1'' ''member'' ''u0'' None
       = Inr exampleWorld"
  using assignRole_rejects_expired_duplicate
          [of expiredWorld "''member''" memberRole "memberAssignment (Some 5)" "''u1''" 10
              "''u0''" None "''teams:read''"]
  by (simp add: scenario_defs findRoleByName_def assignRole_def revokeRole_def
      alreadyHasRole_def expiredInPast_def hasRole_def hasPermission_def findUserRoles_def
      roleOf_def notExpired_def List.map_filter_simps)

section \<open>Permission middleware\<close>

lemma hasAnyPermission_iff:
  "hasAnyPermission now s u ps \<longleftrightarrow> (\<exists>p\<in>set ps. hasPermission now s u p)"
  by (induction ps) auto

lemma hasAllPermissions_iff:
  "hasAllPermissions now s u ps \<longleftrightarrow> (\<forall>p\<in>set ps. hasPermission now s u p)"
  by (induction ps) auto

text \<open>
  Claim C10. For an authenticated request, \<open>requirePermission\<close> lets the request pass
  whenever one of the required permissions is in the token's list, and
  \<open>requireAllPermissions\<close> whenever all of them are, in every state of the role store
  and at every instant. The store is read only when the token's list does not suffice,
  and its answer can only add to what the token grants. So after a role is revoked, a
  token that carries the permission still passes both checks.
\<close>

theorem token_permissions_bypass_role_store:
  assumes "req_user req = Some user"
  shows "((\<exists>q\<in>set ps. q \<in> set (ru_permissions user)) \<longrightarrow>
            (\<forall>now s. requirePermission ps now s req = Inr ()))
     \<and> ((\<forall>q\<in>set ps. q \<in> set (ru_permissions user)) \<longrightarrow>
            (\<forall>now s. requireAllPermissions ps now s req = Inr ()))
     \<and> (requirePermission ps now s req = Inr () \<longleftrightarrow>
            (\<exists>q\<in>set ps. q \<in> set (ru_permissions user))
            \<or> hasAnyPermission now s (ru_userId user) ps)
     \<and> (requireAllPermissions ps now s req = Inr () \<longleftrightarrow>
            (\<forall>q\<in>set ps. q \<in> set (ru_permissions user))
            \<or> hasAllPermissions now s (ru_userId user) ps)
     \<and> (p \<in> set (ru_permissions user) \<longrightarrow>
            (\<forall>s1. revokeRole s (ru_userId user) rn = Inr s1 \<longrightarrow>
               requirePermission [p] now s1 req = Inr ()
               \<and> requireAllPermissions [p] now s1 req = Inr ()))"
  using assms
  by (auto simp: requirePermission_def requireAllPermissions_def list_ex_iff list_all_iff
      Let_def)

theorem token_permissions_bypass_role_store_witness:
  "req_user (requestOf ''u1'' [''member''] [''teams:read''])
     = Some \<lparr>ru_userId = ''u1'', ru_email = ''u1@example.com'', ru_roles = [''member''],
             ru_permissions = [''teams:read'']\<rparr>
   \<and> hasPermission 10 exampleWorld ''u1'' ''teams:read''
   \<and> revokeRole exampleWorld ''u1'' ''member'' = Inr (exampleWorld\<lparr>userRoles := []\<rparr>)
   \<and> \<not> hasPermission 10 (exampleWorld\<lparr>userRoles := []\<rparr>) ''u1'' ''teams:read''
   \<and> requirePermission [''teams:read''] 10 (exampleWorld\<lparr>userRoles := []\<rparr>)
        (requestOf ''u1'' [''member''] [''teams:read'']) = Inr ()
   \<and> requireAllPermissions [''teams:read''] 10 (exampleWorld\<lparr>userRoles := []\<rparr>)
        (requestOf ''u1'' [''member''] [''teams:read'']) = Inr ()
   \<and> requirePermission [''teams:write''] 10 (exampleWorld\<lparr>userRoles := []\<rparr>)
        (requestOf ''u1'' [''member''] [''teams:read''])
       = Inl (AuthorizationError ''Missing required permission'')"
  using token_permissions_bypass_role_store
          [of "requestOf ''u1'' [''member''] [''teams:read'']"
              "\<lparr>ru_userId = ''u1'', ru_email = ''u1@example.com'', ru_roles = [''member''],
                ru_permissions = [''teams:read'']\<rparr>"
              "[''teams:read'']" 10 exampleWorld "''teams:read''" "''member''"]
  by (simp add: scenario_defs requirePermission_def requireAllPermissions_def
      revokeRole_def findRoleByName_def hasPermission_def findUserRoles_def roleOf_def
      notExpired_def List.map_filter_simps)

section \<open>The audit service without and with storage failures\<close>

lemma bindE_cases:
  assumes "bindE m f s = (r, s')"
  obtains (fail) e where "m s = (Inl e, s')" "r = Inl e"
        | (ok) x s1 where "m s = (Inr x, s1)" "f x s1 = (r, s')"
  using assms by (auto simp: bindE_def split: prod.splits sum.splits)

lemma try_catch_Inr:
  assumes "\<And>e s1. \<exists>v. fst (handler e s1) = Inr v"
  shows "\<exists>v. fst (try_catch body handler s) = Inr v"
proof (cases "body s")
  case (Pair r s1)
  then show ?thesis using assms [of _ s1] by (cases r) (auto simp: try_catch_def)
qed

lemma storageCall_cases:
  assumes "storageCall s = (r, s')"
  shows "s' = s\<lparr>faults := tl (faults s)\<rparr>"
  using assms by (auto simp: storageCall_def split: list.splits if_splits)

lemma storageCall_no_faults: "faults s = [] \<Longrightarrow> storageCall s = (Inr (), s)"
  by (simp add: storageCall_def)

lemmas eval_defs =
  io_defs audit_defs scenario_defs failedLogin_def burst_def bruteIncident_def
  incidentWorld_def closedWorld_def bruteForceIncidents_def bruteForceCandidate_def
  show_opt_def show_nat.simps Let_def resolveIncident_def onlyOpened_def markResolved_def
  mergeInto_def dedupInvariant_def correlated_def activeInWindow_def resolvedWorld_def

text \<open>The audit log is written by \<open>auditLog_create\<close> only.\<close>

lemma createSecurityIncident_auditLogs:
  assumes "createSecurityIncident now c s = (r, s')"
  shows "auditLogs s' = auditLogs s"
  using assms
  by (auto simp: createSecurityIncident_def securityIncident_findFirst_def
      securityIncident_update_def securityIncident_create_def bindE_def returnE_def
      logger_def Let_def
      split: prod.splits sum.splits option.splits dest!: storageCall_cases)

lemma bruteForceCheck_auditLogs:
  assumes "bruteForceCheck now ev s = (r, s')"
  shows "auditLogs s' = auditLogs s"
  using assms
  by (auto simp: bruteForceCheck_def auditLog_count_def bindE_def returnE_def
      split: if_splits prod.splits sum.splits
      dest!: storageCall_cases createSecurityIncident_auditLogs)

lemma sensitiveAccessCheck_auditLogs:
  assumes "sensitiveAccessCheck now ev s = (r, s')"
  shows "auditLogs s' = auditLogs s"
  using assms
  by (auto simp: sensitiveAccessCheck_def auditLog_count_def bindE_def returnE_def
      split: if_splits prod.splits sum.splits
      dest!: storageCall_cases createSecurityIncident_auditLogs)

lemma multipleIPCheck_auditLogs:
  assumes "multipleIPCheck now ev s = (r, s')"
  shows "auditLogs s' = auditLogs s"
  using assms
  by (auto simp: multipleIPCheck_def auditLog_distinctIPs_def bindE_def returnE_def
      split: if_splits prod.splits sum.splits
      dest!: storageCall_cases createSecurityIncident_auditLogs)

lemma detectSuspiciousActivity_auditLogs:
  assumes "detectSuspiciousActivity now ev s = (r, s')"
  shows "auditLogs s' = auditLogs s"
  using assms unfolding detectSuspiciousActivity_def
  by (auto elim!: bindE_cases
      dest!: bruteForceCheck_auditLogs sensitiveAccessCheck_auditLogs multipleIPCheck_auditLogs)

lemma auditLog_create_cases:
  assumes "auditLog_create a s = (Inr x, s1)"
  shows "x = a \<and> auditLogs s1 = auditLogs s @ [a]"
  using assms
  by (auto simp: auditLog_create_def bindE_def split: prod.splits sum.splits
      dest!: storageCall_cases)

lemma auditLog_create_incidents:
  assumes "auditLog_create a s = (r, s1)"
  shows "securityIncidents s1 = securityIncidents s"
  using assms
  by (auto simp: auditLog_create_def bindE_def split: prod.splits sum.splits
      dest!: storageCall_cases)

lemma auditLog_create_no_faults:
  "faults s = [] \<Longrightarrow> auditLog_create a s = (Inr a, s\<lparr>auditLogs := auditLogs s @ [a]\<rparr>)"
  by (simp add: auditLog_create_def bindE_def storageCall_no_faults)

lemma log_Inr: "\<exists>v. fst (log now options s) = Inr v"
  unfolding log_def by (rule try_catch_Inr) simp

lemma log_cases:
  assumes "log now options s = (r, s')"
  obtains (persist_failed) e s1 where
      "auditLog_create (newAuditLog now options) s = (Inl e, s1)"
      "r = Inr None" "s' = logger ''error'' ''Failed to create audit log:'' s1"
  | (detect_failed) a s1 e s2 where
      "auditLog_create (newAuditLog now options) s = (Inr a, s1)"
      "detectSuspiciousActivity now options (auditLine a options s1) = (Inl e, s2)"
      "r = Inr None" "s' = logger ''error'' ''Failed to create audit log:'' s2"
  | (recorded) a s1 where
      "auditLog_create (newAuditLog now options) s = (Inr a, s1)"
      "detectSuspiciousActivity now options (auditLine a options s1) = (Inr (), s')"
      "r = Inr (Some a)"
  using assms
  by (auto simp: log_def try_catch_def bindE_def returnE_def split: prod.splits sum.splits)

text \<open>
  Claim C6. \<open>log\<close> never raises to its caller, whatever the state and whatever storage
  calls fail: its result is always a value. When the insertion of the entry fails, it
  writes the line "Failed to create audit log:" to the application log and returns
  \<^verbatim>\<open>undefined\<close>, leaving the tables as they were; when the entry is stored and the
  anomaly detection raises, the exception is swallowed in the same way and the entry stays
  in the log.
\<close>

theorem log_never_raises:
  "(\<exists>v. fst (log now options s) = Inr v)
   \<and> log now options (s\<lparr>faults := True # fs\<rparr>)
       = (Inr None, logger ''error'' ''Failed to create audit log:'' (s\<lparr>faults := fs\<rparr>))
   \<and> (\<forall>a s1 e s2. auditLog_create (newAuditLog now options) s = (Inr a, s1)
         \<and> detectSuspiciousActivity now options (auditLine a options s1) = (Inl e, s2)
        \<longrightarrow> log now options s = (Inr None, logger ''error'' ''Failed to create audit log:'' s2)
            \<and> auditLogs s2 = auditLogs s @ [newAuditLog now options])"
proof (intro conjI allI impI)
  show "\<exists>v. fst (log now options s) = Inr v"
    by (rule log_Inr)
next
  show "log now options (s\<lparr>faults := True # fs\<rparr>)
       = (Inr None, logger ''error'' ''Failed to create audit log:'' (s\<lparr>faults := fs\<rparr>))"
    by (simp add: log_def try_catch_def bindE_def auditLog_create_def storageCall_def)
next
  fix a s1 e s2
  assume h: "auditLog_create (newAuditLog now options) s = (Inr a, s1)
         \<and> detectSuspiciousActivity now options (auditLine a options s1) = (Inl e, s2)"
  then show "log now options s = (Inr None, logger ''error'' ''Failed to create audit log:'' s2)"
    by (simp add: log_def try_catch_def bindE_def)
next
  fix a s1 e s2
  assume h: "auditLog_create (newAuditLog now options) s = (Inr a, s1)
         \<and> detectSuspiciousActivity now options (auditLine a options s1) = (Inl e, s2)"
  then have "auditLogs s2 = auditLogs (auditLine a options s1)"
    by (auto dest: detectSuspiciousActivity_auditLogs)
  also have "\<dots> = auditLogs s1" by (simp add: auditLine_def logger_def)
  also have "\<dots> = auditLogs s @ [newAuditLog now options]"
    using h by (auto dest: auditLog_create_cases)
  finally show "auditLogs s2 = auditLogs s @ [newAuditLog now options]" .
qed

theorem log_never_raises_witness:
  "auditLog_create (newAuditLog 1000 (failedLogin ''u1'' ''10.0.0.1''))
     (emptyWorld\<lparr>faults := [False, True]\<rparr>)
     = (Inr (newAuditLog 1000 (failedLogin ''u1'' ''10.0.0.1'')),
        emptyWorld\<lparr>faults := [True],
                   auditLogs := [newAuditLog 1000 (failedLogin ''u1'' ''10.0.0.1'')]\<rparr>)
   \<and> detectSuspiciousActivity 1000 (failedLogin ''u1'' ''10.0.0.1'')
       (auditLine (newAuditLog 1000 (failedLogin ''u1'' ''10.0.0.1''))
          (failedLogin ''u1'' ''10.0.0.1'')
          (emptyWorld\<lparr>faults := [True],
                      auditLogs := [newAuditLog 1000 (failedLogin ''u1'' ''10.0.0.1'')]\<rparr>))
     = (Inl (PrismaError ''P1001''),
        emptyWorld\<lparr>faults := [],
                   auditLogs := [newAuditLog 1000 (failedLogin ''u1'' ''10.0.0.1'')],
                   logged := [(''warn'', ''Audit: LOGIN_FAILED on Auth'')]\<rparr>)
   \<and> log 1000 (failedLogin ''u1'' ''10.0.0.1'') (emptyWorld\<lparr>faults := [False, True]\<rparr>)
     = (Inr None,
        emptyWorld\<lparr>faults := [],
                   auditLogs := [newAuditLog 1000 (failedLogin ''u1'' ''10.0.0.1'')],
                   logged := [(''warn'', ''Audit: LOGIN_FAILED on Auth''),
                              (''error'', ''Failed to create audit log:'')]\<rparr>)
   \<and> log 1000 (failedLogin ''u1'' ''10.0.0.1'') (emptyWorld\<lparr>faults := [True]\<rparr>)
     = (Inr None, emptyWorld\<lparr>logged := [(''error'', ''Failed to create audit log:'')]\<rparr>)"
proof -
  let ?ev = "failedLogin ''u1'' ''10.0.0.1''"
  let ?a = "newAuditLog 1000 ?ev"
  let ?s1 = "emptyWorld\<lparr>faults := [True], auditLogs := [?a]\<rparr>"
  let ?s2 = "emptyWorld\<lparr>faults := [], auditLogs := [?a],
                        logged := [(''warn'', ''Audit: LOGIN_FAILED on Auth'')]\<rparr>"
  note t = log_never_raises [of 1000 ?ev "emptyWorld\<lparr>faults := [False, True]\<rparr>" "[]"]
  have c: "auditLog_create ?a (emptyWorld\<lparr>faults := [False, True]\<rparr>) = (Inr ?a, ?s1)"
    by (simp add: eval_defs)
  have d: "detectSuspiciousActivity 1000 ?ev (auditLine ?a ?ev ?s1)
             = (Inl (PrismaError ''P1001''), ?s2)"
    by (simp add: eval_defs)
  from t c d have "log 1000 ?ev (emptyWorld\<lparr>faults := [False, True]\<rparr>)
      = (Inr None, logger ''error'' ''Failed to create audit log:'' ?s2)"
    by blast
  then have l: "log 1000 ?ev (emptyWorld\<lparr>faults := [False, True]\<rparr>)
     = (Inr None,
        emptyWorld\<lparr>faults := [], auditLogs := [?a],
                   logged := [(''warn'', ''Audit: LOGIN_FAILED on Auth''),
                              (''error'', ''Failed to create audit log:'')]\<rparr>)"
    by (simp add: logger_def emptyWorld_def)
  from log_never_raises [of 1000 ?ev emptyWorld "[]"]
  have "log 1000 ?ev (emptyWorld\<lparr>faults := [True]\<rparr>)
          = (Inr None, logger ''error'' ''Failed to create audit log:''
                         (emptyWorld\<lparr>faults := []\<rparr>))"
    by blast
  then have p: "log 1000 ?ev (emptyWorld\<lparr>faults := [True]\<rparr>)
     = (Inr None, emptyWorld\<lparr>logged := [(''error'', ''Failed to create audit log:'')]\<rparr>)"
    by (simp add: logger_def emptyWorld_def)
  from c d l p show ?thesis by blast
qed

section \<open>Creating or merging an incident\<close>

lemma find_Some_set: "find P xs = Some x \<Longrightarrow> x \<in> set xs \<and> P x"
  by (induction xs) (auto split: if_splits)

lemma find_id_of_member:
  "x \<in> set xs \<Longrightarrow> \<exists>y. find (\<lambda>z. si_id z = si_id x) xs = Some y"
  by (induction xs) auto

lemma createSecurityIncident_incidents:
  assumes "createSecurityIncident now c s = (r, s')"
  shows "securityIncidents s' = securityIncidents s
       \<or> (\<exists>ex. find (matchesCandidate now c) (securityIncidents s) = Some ex
              \<and> securityIncidents s' = mergeInto ex c (securityIncidents s))
       \<or> (find (matchesCandidate now c) (securityIncidents s) = None
            \<and> securityIncidents s' = securityIncidents s @ [newIncident (nextId s) now c])"
  using assms
  by (auto simp: createSecurityIncident_def securityIncident_findFirst_def
      securityIncident_update_def securityIncident_create_def bindE_def returnE_def
      logger_def Let_def storageCall_def mergeInto_def
      split: prod.splits sum.splits option.splits list.splits if_splits)

lemma createSecurityIncident_no_faults:
  assumes "faults s = []"
  shows "createSecurityIncident now c s =
     (case find (matchesCandidate now c) (securityIncidents s) of
        Some ex \<Rightarrow> (Inr (), s\<lparr>securityIncidents := mergeInto ex c (securityIncidents s)\<rparr>)
      | None \<Rightarrow>
          (Inr (), logger ''warn'' (alertMark @ '' Security Incident Created: '' @ id_title c)
                     (s\<lparr>securityIncidents :=
                          securityIncidents s @ [newIncident (nextId s) now c],
                        nextId := Suc (nextId s)\<rparr>)))"
proof (cases "find (matchesCandidate now c) (securityIncidents s)")
  case None
  then show ?thesis using assms
    by (simp add: createSecurityIncident_def securityIncident_findFirst_def
      securityIncident_create_def bindE_def returnE_def Let_def storageCall_def)
next
  case (Some ex)
  then have "ex \<in> set (securityIncidents s)" by (auto dest: find_Some_set)
  then obtain y where "find (\<lambda>z. si_id z = si_id ex) (securityIncidents s) = Some y"
    using find_id_of_member by blast
  with Some show ?thesis using assms
    by (simp add: createSecurityIncident_def securityIncident_findFirst_def
      securityIncident_update_def bindE_def returnE_def storageCall_def mergeInto_def)
qed






lemma mergeInto_fields:
  "map si_status (mergeInto ex c xs) = map si_status xs
   \<and> map si_severity (mergeInto ex c xs) = map si_severity xs
   \<and> map si_id (mergeInto ex c xs) = map si_id xs
   \<and> map si_type (mergeInto ex c xs) = map si_type xs"
  by (simp add: mergeInto_def comp_def if_distrib [of si_status] if_distrib [of si_severity]
      if_distrib [of si_id] if_distrib [of si_type] cong: if_cong)

lemma distinct_ids_eq:
  assumes "distinct (map si_id xs)" "x \<in> set xs" "y \<in> set xs" "si_id x = si_id y"
  shows "x = y"
  using assms by (meson distinct_map inj_on_def)


text \<open>
  The window only shrinks as time passes, so the invariant at one instant holds at every
  later one.
\<close>

lemma uncorrelated_later:
  assumes "now \<le> now'" and "uncorrelated now xs"
  shows "uncorrelated now' xs"
  using assms(2)
proof (induction xs)
  case Nil
  show ?case by simp
next
  case (Cons x xs)
  have "correlated now' a b \<Longrightarrow> correlated now a b" for a b
    using assms(1) by (auto simp: correlated_def activeInWindow_def)
  with Cons show ?case by (auto simp: list_all_iff)
qed





section \<open>The status of an incident\<close>

lemma onlyOpened_refl: "onlyOpened xs xs"
  by (simp add: onlyOpened_def)

lemma onlyOpened_same_statuses:
  "length ys = length xs \<Longrightarrow> map si_status ys = map si_status xs \<Longrightarrow> onlyOpened xs ys"
  by (simp add: onlyOpened_def)

lemma onlyOpened_iff:
  "onlyOpened xs ys \<longleftrightarrow>
     (\<exists>zs. map si_status ys = map si_status xs @ zs \<and> list_all (\<lambda>z. z = ''OPEN'') zs)"
proof
  assume h: "onlyOpened xs ys"
  have "map si_status ys = map si_status (take (length xs) ys) @ map si_status (drop (length xs) ys)"
    by (simp flip: map_append)
  with h show "\<exists>zs. map si_status ys = map si_status xs @ zs \<and> list_all (\<lambda>z. z = ''OPEN'') zs"
    by (auto simp: onlyOpened_def list_all_iff)
next
  assume "\<exists>zs. map si_status ys = map si_status xs @ zs \<and> list_all (\<lambda>z. z = ''OPEN'') zs"
  then obtain zs where e: "map si_status ys = map si_status xs @ zs"
    and o: "list_all (\<lambda>z. z = ''OPEN'') zs" by blast
  from e have len: "length ys = length xs + length zs"
    by (metis length_append length_map)
  from e have t: "map si_status (take (length xs) ys) = map si_status xs"
    by (metis append_eq_conv_conj length_map take_map)
  from e have d: "map si_status (drop (length xs) ys) = zs"
    by (metis append_eq_conv_conj length_map drop_map)
  from o d have "list_all (\<lambda>y. si_status y = ''OPEN'') (drop (length xs) ys)"
    by (auto simp: list_all_iff)
  with len t show "onlyOpened xs ys" by (simp add: onlyOpened_def)
qed

lemma onlyOpened_trans:
  assumes "onlyOpened xs ys" and "onlyOpened ys zs"
  shows "onlyOpened xs zs"
proof -
  from assms obtain a b where "map si_status ys = map si_status xs @ a" "list_all (\<lambda>z. z = ''OPEN'') a"
    "map si_status zs = map si_status ys @ b" "list_all (\<lambda>z. z = ''OPEN'') b"
    unfolding onlyOpened_iff by blast
  then have "map si_status zs = map si_status xs @ (a @ b) \<and> list_all (\<lambda>z. z = ''OPEN'') (a @ b)"
    by simp
  then show ?thesis unfolding onlyOpened_iff by blast
qed

lemma createSecurityIncident_onlyOpened:
  assumes "createSecurityIncident now c s = (r, s')"
  shows "onlyOpened (securityIncidents s) (securityIncidents s')"
  using createSecurityIncident_incidents [OF assms]
  by (auto simp: onlyOpened_iff mergeInto_fields newIncident_def)

lemma bruteForceCheck_onlyOpened:
  assumes "bruteForceCheck now ev s = (r, s')"
  shows "onlyOpened (securityIncidents s) (securityIncidents s')"
  using assms
  by (auto simp: bruteForceCheck_def auditLog_count_def bindE_def returnE_def onlyOpened_refl
      split: if_splits prod.splits sum.splits
      dest!: storageCall_cases createSecurityIncident_onlyOpened)

lemma sensitiveAccessCheck_onlyOpened:
  assumes "sensitiveAccessCheck now ev s = (r, s')"
  shows "onlyOpened (securityIncidents s) (securityIncidents s')"
  using assms
  by (auto simp: sensitiveAccessCheck_def auditLog_count_def bindE_def returnE_def onlyOpened_refl
      split: if_splits prod.splits sum.splits
      dest!: storageCall_cases createSecurityIncident_onlyOpened)

lemma multipleIPCheck_onlyOpened:
  assumes "multipleIPCheck now ev s = (r, s')"
  shows "onlyOpened (securityIncidents s) (securityIncidents s')"
  using assms
  by (auto simp: multipleIPCheck_def auditLog_distinctIPs_def bindE_def returnE_def onlyOpened_refl
      split: if_splits prod.splits sum.splits
      dest!: storageCall_cases createSecurityIncident_onlyOpened)

lemma detectSuspiciousActivity_onlyOpened:
  assumes "detectSuspiciousActivity now ev s = (r, s')"
  shows "onlyOpened (securityIncidents s) (securityIncidents s')"
  using assms unfolding detectSuspiciousActivity_def
proof (cases rule: bindE_cases)
  case (fail e)
  then show ?thesis by (auto dest: bruteForceCheck_onlyOpened)
next
  case (ok x s1)
  from ok(1) have 1: "onlyOpened (securityIncidents s) (securityIncidents s1)"
    by (rule bruteForceCheck_onlyOpened)
  from ok(2) show ?thesis
  proof (cases rule: bindE_cases)
    case (fail e)
    then have "onlyOpened (securityIncidents s1) (securityIncidents s')"
      by (auto dest: sensitiveAccessCheck_onlyOpened)
    with 1 show ?thesis by (rule onlyOpened_trans)
  next
    case (ok y s2)
    from ok(1) have 2: "onlyOpened (securityIncidents s1) (securityIncidents s2)"
      by (rule sensitiveAccessCheck_onlyOpened)
    from ok(2) have 3: "onlyOpened (securityIncidents s2) (securityIncidents s')"
      by (rule multipleIPCheck_onlyOpened)
    from 1 2 3 show ?thesis by (blast intro: onlyOpened_trans)
  qed
qed

lemma log_onlyOpened:
  assumes "log now options s = (r, s')"
  shows "onlyOpened (securityIncidents s) (securityIncidents s')"
  using assms
proof (cases rule: log_cases)
  case (persist_failed e s1)
  then show ?thesis
    by (auto simp: logger_def onlyOpened_refl dest!: auditLog_create_incidents)
next
  case (detect_failed a s1 e s2)
  from detectSuspiciousActivity_onlyOpened [OF detect_failed(2)] detect_failed(1,4)
  show ?thesis
    by (auto simp: logger_def auditLine_def dest!: auditLog_create_incidents)
next
  case (recorded a s1)
  from detectSuspiciousActivity_onlyOpened [OF recorded(2)] recorded(1)
  show ?thesis
    by (auto simp: logger_def auditLine_def dest!: auditLog_create_incidents)
qed

lemma securityIncident_update_cases:
  assumes "securityIncident_update i upd s = (r, s1)"
  shows "(\<exists>e. r = Inl e \<and> securityIncidents s1 = securityIncidents s)
       \<or> (\<exists>x. r = Inr (upd x) \<and> x \<in> set (securityIncidents s) \<and> si_id x = i
             \<and> securityIncidents s1
                 = map (\<lambda>y. if si_id y = i then upd y else y) (securityIncidents s))"
  using assms
  by (auto simp: securityIncident_update_def bindE_def split: prod.splits sum.splits option.splits
      dest!: storageCall_cases find_Some_set)

lemma resolveIncident_onlyOpened:
  assumes "resolveIncident now i res by s = (r, s')"
  shows "case r of
           Inl e \<Rightarrow> onlyOpened (securityIncidents s) (securityIncidents s')
         | Inr x \<Rightarrow> onlyOpened (markResolved i (securityIncidents s)) (securityIncidents s')
                    \<and> si_status x = ''RESOLVED'' \<and> si_id x = i"
  using assms unfolding resolveIncident_def
proof (cases rule: bindE_cases)
  case (fail e)
  then show ?thesis
    by (auto simp: onlyOpened_refl dest!: securityIncident_update_cases)
next
  case (ok x s1)
  let ?upd = "\<lambda>y. y\<lparr>si_status := ''RESOLVED'', si_resolution := Some res,
                      si_resolvedBy := Some by, si_resolvedAt := Some now\<rparr>"
  from securityIncident_update_cases [OF ok(1)]
  obtain x0 where x: "x = ?upd x0" "si_id x0 = i"
    and s1: "securityIncidents s1 = map (\<lambda>y. if si_id y = i then ?upd y else y) (securityIncidents s)"
    by auto
  have a: "onlyOpened (markResolved i (securityIncidents s)) (securityIncidents s1)"
    unfolding s1 markResolved_def
    by (rule onlyOpened_same_statuses) (simp_all add: comp_def if_distrib [of si_status] cong: if_cong)
  from ok(2) obtain v s2 where l: "log now
              \<lparr>lo_userId = Some by, lo_action = ''SECURITY_INCIDENT_RESOLVED'',
               lo_resource = ''SecurityIncident'',
               lo_resourceId = Some (show_nat i),
               lo_details = [(''resolution'', res)], lo_ipAddress = None, lo_userAgent = None,
               lo_status = None, lo_errorMessage = None, lo_duration = None\<rparr> s1 = (v, s2)"
    and r: "(case v of Inl e \<Rightarrow> (Inl e, s2) | Inr u \<Rightarrow> returnE x s2) = (r, s')"
    by (auto simp: bindE_def split: prod.splits)
  have "\<exists>u. fst (log now
              \<lparr>lo_userId = Some by, lo_action = ''SECURITY_INCIDENT_RESOLVED'',
               lo_resource = ''SecurityIncident'',
               lo_resourceId = Some (show_nat i),
               lo_details = [(''resolution'', res)], lo_ipAddress = None, lo_userAgent = None,
               lo_status = None, lo_errorMessage = None, lo_duration = None\<rparr> s1) = Inr u"
    by (rule log_Inr)
  with l obtain u where "v = Inr u" by auto
  with r have "r = Inr x" "s' = s2" by (simp_all add: returnE_def)
  with log_onlyOpened [OF l] a x show ?thesis
    by (auto intro: onlyOpened_trans)
qed

lemma resolveIncident_succeeds:
  assumes nf: "faults s = []" and ex: "\<exists>y\<in>set (securityIncidents s). si_id y = i"
  shows "\<exists>x. fst (resolveIncident now i res by s) = Inr x"
proof -
  from ex have "find (\<lambda>x. si_id x = i) (securityIncidents s) \<noteq> None"
    by (simp add: find_None_iff_all)
  then obtain y where y: "find (\<lambda>x. si_id x = i) (securityIncidents s) = Some y" by auto
  let ?upd = "\<lambda>y. y\<lparr>si_status := ''RESOLVED'', si_resolution := Some res,
                      si_resolvedBy := Some by, si_resolvedAt := Some now\<rparr>"
  let ?s1 = "s\<lparr>securityIncidents :=
                 map (\<lambda>y. if si_id y = i then ?upd y else y) (securityIncidents s)\<rparr>"
  let ?ev = "\<lparr>lo_userId = Some by, lo_action = ''SECURITY_INCIDENT_RESOLVED'',
               lo_resource = ''SecurityIncident'',
               lo_resourceId = Some (show_nat i),
               lo_details = [(''resolution'', res)], lo_ipAddress = None, lo_userAgent = None,
               lo_status = None, lo_errorMessage = None, lo_duration = None\<rparr>"
  have u: "securityIncident_update i ?upd s = (Inr (?upd y), ?s1)"
    using nf y by (simp add: securityIncident_update_def bindE_def storageCall_no_faults)
  obtain v s2 where l: "log now ?ev ?s1 = (Inr v, s2)"
    using log_Inr [of now ?ev ?s1] by (cases "log now ?ev ?s1") auto
  show ?thesis
    by (simp add: resolveIncident_def bindE_def u l returnE_def)
qed

text \<open>
  Claim C5 as stated fails: \<open>resolveIncident\<close> sets the status to \<open>RESOLVED\<close> without
  reading the current one. Of two incidents, the first \<open>FALSE_POSITIVE\<close> and the second
  \<open>OPEN\<close>, resolving the first takes it out of \<open>FALSE_POSITIVE\<close>, and resolving the
  second moves it from \<open>OPEN\<close> to \<open>RESOLVED\<close> without passing through
  \<open>INVESTIGATING\<close>.
\<close>

theorem resolveIncident_status_counterexample:
  "map si_status (securityIncidents closedWorld) = [''FALSE_POSITIVE'', ''OPEN'']
   \<and> map si_status
        (securityIncidents (snd (resolveIncident 7000 0 ''reviewed'' ''u0'' closedWorld)))
       = [''RESOLVED'', ''OPEN'']
   \<and> map si_status
        (securityIncidents (snd (resolveIncident 7000 1 ''reviewed'' ''u0'' closedWorld)))
       = [''FALSE_POSITIVE'', ''RESOLVED'']"
  by (simp add: eval_defs)

text \<open>
  Claim C5, amended. The only change of status any operation makes is that of
  \<open>resolveIncident\<close>: when it succeeds, the incident with the given identifier has status
  \<open>RESOLVED\<close>, whatever its status was (so a \<open>RESOLVED\<close> incident stays \<open>RESOLVED\<close>),
  and every other incident keeps its status; when it fails, every incident keeps its
  status. Recording an event and create-or-merge keep the status of every existing
  incident and add incidents with status \<open>OPEN\<close> only. \<open>resolveIncident\<close> succeeds
  when no storage call fails and the identifier exists.
\<close>

theorem incident_status_only_resolved:
  "onlyOpened (securityIncidents s) (securityIncidents (snd (log now options s)))
   \<and> onlyOpened (securityIncidents s)
        (securityIncidents (snd (createSecurityIncident now c s)))
   \<and> (\<forall>r s'. resolveIncident now i res by s = (r, s') \<longrightarrow>
        (case r of
           Inl e \<Rightarrow> onlyOpened (securityIncidents s) (securityIncidents s')
         | Inr x \<Rightarrow> onlyOpened (markResolved i (securityIncidents s)) (securityIncidents s')
                    \<and> si_status x = ''RESOLVED'' \<and> si_id x = i))
   \<and> (faults s = [] \<and> (\<exists>y\<in>set (securityIncidents s). si_id y = i) \<longrightarrow>
        (\<exists>x. fst (resolveIncident now i res by s) = Inr x))"
proof (intro conjI allI impI)
  show "onlyOpened (securityIncidents s) (securityIncidents (snd (log now options s)))"
    by (rule log_onlyOpened) (rule surjective_pairing)
  show "onlyOpened (securityIncidents s)
        (securityIncidents (snd (createSecurityIncident now c s)))"
    by (rule createSecurityIncident_onlyOpened) (rule surjective_pairing)
next
  fix r s' assume "resolveIncident now i res by s = (r, s')"
  then show "case r of
           Inl e \<Rightarrow> onlyOpened (securityIncidents s) (securityIncidents s')
         | Inr x \<Rightarrow> onlyOpened (markResolved i (securityIncidents s)) (securityIncidents s')
                    \<and> si_status x = ''RESOLVED'' \<and> si_id x = i"
    by (rule resolveIncident_onlyOpened)
next
  assume "faults s = [] \<and> (\<exists>y\<in>set (securityIncidents s). si_id y = i)"
  then show "\<exists>x. fst (resolveIncident now i res by s) = Inr x"
    by (intro resolveIncident_succeeds) simp_all
qed

theorem incident_status_only_resolved_witness:
  "faults closedWorld = []
   \<and> map si_id (securityIncidents closedWorld) = [0, 1]
   \<and> fst (resolveIncident 7000 0 ''reviewed'' ''u0'' closedWorld)
       = Inr (bruteIncident\<lparr>si_status := ''RESOLVED'', si_resolution := Some ''reviewed'',
                            si_resolvedBy := Some ''u0'', si_resolvedAt := Some 7000\<rparr>)
   \<and> map si_status (markResolved 0 (securityIncidents closedWorld)) = [''RESOLVED'', ''OPEN'']
   \<and> onlyOpened (markResolved 0 (securityIncidents closedWorld))
        (securityIncidents (snd (resolveIncident 7000 0 ''reviewed'' ''u0'' closedWorld)))
   \<and> fst (resolveIncident 7000 5 ''reviewed'' ''u0'' closedWorld) = Inl (PrismaError ''P2025'')
   \<and> onlyOpened (securityIncidents closedWorld)
        (securityIncidents (snd (resolveIncident 7000 5 ''reviewed'' ''u0'' closedWorld)))"
proof -
  let ?ev = "failedLogin ''u1'' ''10.0.0.1''"
  let ?c = "bruteForceCandidate ?ev 6"
  note t0 = incident_status_only_resolved
              [of closedWorld 7000 ?ev ?c 0 "''reviewed''" "''u0''"]
  note t5 = incident_status_only_resolved
              [of closedWorld 7000 ?ev ?c 5 "''reviewed''" "''u0''"]
  have nf: "faults closedWorld = []"
    and ids: "map si_id (securityIncidents closedWorld) = [0, 1]"
    and m: "map si_status (markResolved 0 (securityIncidents closedWorld))
              = [''RESOLVED'', ''OPEN'']"
    by (simp_all add: eval_defs)
  have r0: "fst (resolveIncident 7000 0 ''reviewed'' ''u0'' closedWorld)
       = Inr (bruteIncident\<lparr>si_status := ''RESOLVED'', si_resolution := Some ''reviewed'',
                            si_resolvedBy := Some ''u0'', si_resolvedAt := Some 7000\<rparr>)"
    by (simp add: eval_defs)
  have r5: "fst (resolveIncident 7000 5 ''reviewed'' ''u0'' closedWorld)
              = Inl (PrismaError ''P2025'')"
    by (simp add: eval_defs)
  from t0 have "case fst (resolveIncident 7000 0 ''reviewed'' ''u0'' closedWorld) of
           Inl e \<Rightarrow> onlyOpened (securityIncidents closedWorld)
                      (securityIncidents (snd (resolveIncident 7000 0 ''reviewed'' ''u0'' closedWorld)))
         | Inr x \<Rightarrow> onlyOpened (markResolved 0 (securityIncidents closedWorld))
                      (securityIncidents (snd (resolveIncident 7000 0 ''reviewed'' ''u0'' closedWorld)))
                    \<and> si_status x = ''RESOLVED'' \<and> si_id x = 0"
    using surjective_pairing by blast
  then have o0: "onlyOpened (markResolved 0 (securityIncidents closedWorld))
        (securityIncidents (snd (resolveIncident 7000 0 ''reviewed'' ''u0'' closedWorld)))"
    unfolding r0 by simp
  from t5 have "case fst (resolveIncident 7000 5 ''reviewed'' ''u0'' closedWorld) of
           Inl e \<Rightarrow> onlyOpened (securityIncidents closedWorld)
                      (securityIncidents (snd (resolveIncident 7000 5 ''reviewed'' ''u0'' closedWorld)))
         | Inr x \<Rightarrow> onlyOpened (markResolved 5 (securityIncidents closedWorld))
                      (securityIncidents (snd (resolveIncident 7000 5 ''reviewed'' ''u0'' closedWorld)))
                    \<and> si_status x = ''RESOLVED'' \<and> si_id x = 5"
    using surjective_pairing by blast
  then have o5: "onlyOpened (securityIncidents closedWorld)
        (securityIncidents (snd (resolveIncident 7000 5 ''reviewed'' ''u0'' closedWorld)))"
    unfolding r5 by simp
  from nf ids r0 m o0 r5 o5 show ?thesis by blast
qed

section \<open>Brute-force detection\<close>

lemma find_filter_imp:
  assumes "\<And>x. P x \<Longrightarrow> Q x"
  shows "find P (filter Q xs) = find P xs"
  using assms by (induction xs) auto

lemma matchesCandidate_type: "matchesCandidate now c y \<Longrightarrow> si_type y = id_type c"
  by (simp add: matchesCandidate_def)

lemma filter_type_mergeInto:
  "filter (\<lambda>i. si_type i = ty) (mergeInto ex c xs) = mergeInto ex c (filter (\<lambda>i. si_type i = ty) xs)"
  unfolding mergeInto_def by (induction xs) auto

lemma mergeInto_other_id:
  assumes "\<forall>y\<in>set xs. si_id y \<noteq> si_id ex"
  shows "mergeInto ex c xs = xs"
  using assms unfolding mergeInto_def by (induction xs) auto

text \<open>A candidate of another type leaves the brute-force incidents alone.\<close>

lemma createSecurityIncident_other_type:
  assumes nf: "faults s = []" and keys: "incidentKeys s" and ty: "id_type c \<noteq> ''BRUTE_FORCE''"
  shows "bruteForceIncidents (snd (createSecurityIncident now c s)) = bruteForceIncidents s"
proof (cases "find (matchesCandidate now c) (securityIncidents s)")
  case None
  then show ?thesis using nf ty
    by (simp add: createSecurityIncident_no_faults bruteForceIncidents_def logger_def newIncident_def)
next
  case (Some ex)
  then have ex: "ex \<in> set (securityIncidents s)" "si_type ex = id_type c"
    by (auto dest: find_Some_set matchesCandidate_type)
  have "\<forall>y\<in>set (bruteForceIncidents s). si_id y \<noteq> si_id ex"
  proof
    fix y assume y: "y \<in> set (bruteForceIncidents s)"
    show "si_id y \<noteq> si_id ex"
    proof
      assume "si_id y = si_id ex"
      with keys y ex(1) have "y = ex"
        by (auto simp: incidentKeys_def bruteForceIncidents_def intro: distinct_ids_eq)
      with y ex(2) ty show False by (simp add: bruteForceIncidents_def)
    qed
  qed
  then have "mergeInto ex c (bruteForceIncidents s) = bruteForceIncidents s"
    by (rule mergeInto_other_id)
  with Some nf show ?thesis
    by (simp add: createSecurityIncident_no_faults bruteForceIncidents_def filter_type_mergeInto)
qed

lemma createSecurityIncident_brute_force:
  assumes nf: "faults s = []" and ty: "id_type c = ''BRUTE_FORCE''"
  shows "bruteForceIncidents (snd (createSecurityIncident now c s)) =
     (case find (matchesCandidate now c) (bruteForceIncidents s) of
        Some ex \<Rightarrow> mergeInto ex c (bruteForceIncidents s)
      | None \<Rightarrow> bruteForceIncidents s @ [newIncident (nextId s) now c])"
proof -
  have f: "find (matchesCandidate now c) (bruteForceIncidents s)
            = find (matchesCandidate now c) (securityIncidents s)"
    unfolding bruteForceIncidents_def
    by (rule find_filter_imp) (simp add: matchesCandidate_def ty)
  show ?thesis using nf ty unfolding f
    by (cases "find (matchesCandidate now c) (securityIncidents s)")
       (simp_all add: createSecurityIncident_no_faults bruteForceIncidents_def
          filter_type_mergeInto logger_def newIncident_def)
qed

lemma createSecurityIncident_frame:
  assumes nf: "faults s = []"
  shows "fst (createSecurityIncident now c s) = Inr ()
       \<and> faults (snd (createSecurityIncident now c s)) = []
       \<and> auditLogs (snd (createSecurityIncident now c s)) = auditLogs s"
  using nf
  by (cases "find (matchesCandidate now c) (securityIncidents s)")
     (simp_all add: createSecurityIncident_no_faults logger_def)

lemma createSecurityIncident_keys:
  assumes nf: "faults s = []" and keys: "incidentKeys s"
  shows "incidentKeys (snd (createSecurityIncident now c s))"
proof (cases "find (matchesCandidate now c) (securityIncidents s)")
  case None
  have "si_id (newIncident (nextId s) now c) = nextId s" by (simp add: newIncident_def)
  with None nf keys show ?thesis
    by (auto simp: createSecurityIncident_no_faults logger_def incidentKeys_def list_all_iff)
next
  case (Some ex)
  have "list_all (\<lambda>i. si_id i < k) (mergeInto ex c xs) = list_all (\<lambda>i. si_id i < k) xs"
    for k xs
    unfolding mergeInto_def by (induction xs) auto
  with Some nf keys show ?thesis
    by (simp add: createSecurityIncident_no_faults incidentKeys_def mergeInto_fields)
qed

lemma bruteForceCheck_no_faults:
  assumes "faults s = []" "lo_action ev = ''LOGIN_FAILED''" "truthy (lo_userId ev)"
  shows "bruteForceCheck now ev s =
     (if recentFailures now (lo_userId ev) (auditLogs s) \<ge> 5
      then createSecurityIncident now
             (bruteForceCandidate ev (recentFailures now (lo_userId ev) (auditLogs s))) s
      else (Inr (), s))"
  using assms
  by (simp add: bruteForceCheck_def auditLog_count_def bindE_def storageCall_no_faults
      returnE_def recentFailures_def bruteForceCandidate_def)

lemma bruteForceCandidate_type: "id_type (bruteForceCandidate ev n) = ''BRUTE_FORCE''"
  by (simp add: bruteForceCandidate_def)

lemma sensitiveAccessCheck_other_action:
  "lo_action ev \<noteq> ''SENSITIVE_DATA_ACCESSED'' \<Longrightarrow> sensitiveAccessCheck now ev s = (Inr (), s)"
  by (simp add: sensitiveAccessCheck_def returnE_def)

text \<open>
  What a check of the detector leaves in place when no storage call fails: no exception,
  the audit log, the primary key of the incident table, and the fault script.
\<close>

lemma multipleIPCheck_frame:
  assumes nf: "faults s = []" and keys: "incidentKeys s"
  shows "fst (multipleIPCheck now ev s) = Inr ()
       \<and> faults (snd (multipleIPCheck now ev s)) = []
       \<and> auditLogs (snd (multipleIPCheck now ev s)) = auditLogs s
       \<and> incidentKeys (snd (multipleIPCheck now ev s))
       \<and> bruteForceIncidents (snd (multipleIPCheck now ev s)) = bruteForceIncidents s"
  using nf keys
  by (simp add: multipleIPCheck_def auditLog_distinctIPs_def bindE_def storageCall_no_faults
      returnE_def createSecurityIncident_frame createSecurityIncident_keys
      createSecurityIncident_other_type)

lemma sensitiveAccessCheck_frame:
  assumes nf: "faults s = []" and keys: "incidentKeys s"
  shows "fst (sensitiveAccessCheck now ev s) = Inr ()
       \<and> faults (snd (sensitiveAccessCheck now ev s)) = []
       \<and> auditLogs (snd (sensitiveAccessCheck now ev s)) = auditLogs s
       \<and> incidentKeys (snd (sensitiveAccessCheck now ev s))
       \<and> bruteForceIncidents (snd (sensitiveAccessCheck now ev s)) = bruteForceIncidents s"
  using nf keys
  by (simp add: sensitiveAccessCheck_def auditLog_count_def bindE_def storageCall_no_faults
      returnE_def createSecurityIncident_frame createSecurityIncident_keys
      createSecurityIncident_other_type)

lemma bruteForceCheck_frame:
  assumes nf: "faults s = []" and keys: "incidentKeys s"
    and act: "lo_action ev = ''LOGIN_FAILED''" and uid: "truthy (lo_userId ev)"
  shows "fst (bruteForceCheck now ev s) = Inr ()
       \<and> faults (snd (bruteForceCheck now ev s)) = []
       \<and> auditLogs (snd (bruteForceCheck now ev s)) = auditLogs s
       \<and> incidentKeys (snd (bruteForceCheck now ev s))"
  using nf keys
  by (simp add: bruteForceCheck_no_faults [OF nf act uid] createSecurityIncident_frame
      createSecurityIncident_keys)

lemma bruteForceCheck_incidents:
  assumes nf: "faults s = []"
    and act: "lo_action ev = ''LOGIN_FAILED''" and uid: "truthy (lo_userId ev)"
  shows "bruteForceIncidents (snd (bruteForceCheck now ev s)) =
     (if recentFailures now (lo_userId ev) (auditLogs s) \<ge> 5 then
        (case find (matchesCandidate now
                      (bruteForceCandidate ev (recentFailures now (lo_userId ev) (auditLogs s))))
                (bruteForceIncidents s) of
           Some ex \<Rightarrow>
             mergeInto ex (bruteForceCandidate ev (recentFailures now (lo_userId ev) (auditLogs s)))
               (bruteForceIncidents s)
         | None \<Rightarrow>
             bruteForceIncidents s
             @ [newIncident (nextId s) now
                  (bruteForceCandidate ev (recentFailures now (lo_userId ev) (auditLogs s)))])
      else bruteForceIncidents s)"
  using nf
  by (simp add: bruteForceCheck_no_faults [OF nf act uid] createSecurityIncident_brute_force
      bruteForceCandidate_type)

lemma bruteForceCheck_not_triggered:
  "\<not> (lo_action ev = ''LOGIN_FAILED'' \<and> truthy (lo_userId ev)) \<Longrightarrow>
   bruteForceCheck now ev s = (Inr (), s)"
  by (auto simp: bruteForceCheck_def returnE_def)

lemma detect_failed_login:
  assumes nf: "faults s = []" and keys: "incidentKeys s"
    and act: "lo_action ev = ''LOGIN_FAILED''" and uid: "truthy (lo_userId ev)"
  shows "detectSuspiciousActivity now ev s
           = (Inr (), snd (multipleIPCheck now ev (snd (bruteForceCheck now ev s))))"
proof -
  from act have na: "lo_action ev \<noteq> ''SENSITIVE_DATA_ACCESSED''" by simp
  obtain s1 where b: "bruteForceCheck now ev s = (Inr (), s1)"
    using bruteForceCheck_frame [OF nf keys act uid, of now]
    by (cases "bruteForceCheck now ev s") auto
  with bruteForceCheck_frame [OF nf keys act uid, of now]
  have s1: "faults s1 = []" "incidentKeys s1" by simp_all
  obtain s2 where m: "multipleIPCheck now ev s1 = (Inr (), s2)"
    using multipleIPCheck_frame [OF s1, of now ev]
    by (cases "multipleIPCheck now ev s1") auto
  show ?thesis
    by (simp add: detectSuspiciousActivity_def bindE_def b m
        sensitiveAccessCheck_other_action [OF na])
qed

lemma detect_other_event:
  assumes nf: "faults s = []" and keys: "incidentKeys s"
    and other: "\<not> (lo_action ev = ''LOGIN_FAILED'' \<and> truthy (lo_userId ev))"
  shows "detectSuspiciousActivity now ev s
           = (Inr (), snd (multipleIPCheck now ev (snd (sensitiveAccessCheck now ev s))))"
proof -
  obtain s1 where b: "sensitiveAccessCheck now ev s = (Inr (), s1)"
    using sensitiveAccessCheck_frame [OF nf keys, of now ev]
    by (cases "sensitiveAccessCheck now ev s") auto
  with sensitiveAccessCheck_frame [OF nf keys, of now ev]
  have s1: "faults s1 = []" "incidentKeys s1" by simp_all
  obtain s2 where m: "multipleIPCheck now ev s1 = (Inr (), s2)"
    using multipleIPCheck_frame [OF s1, of now ev]
    by (cases "multipleIPCheck now ev s1") auto
  show ?thesis
    by (simp add: detectSuspiciousActivity_def bindE_def b m
        bruteForceCheck_not_triggered [OF other])
qed

lemma log_failed_login:
  assumes nf: "faults s = []" and keys: "incidentKeys s"
    and act: "lo_action ev = ''LOGIN_FAILED''" and uid: "truthy (lo_userId ev)"
  shows "fst (log now ev s) = Inr (Some (newAuditLog now ev))
       \<and> faults (snd (log now ev s)) = []
       \<and> incidentKeys (snd (log now ev s))
       \<and> auditLogs (snd (log now ev s)) = auditLogs s @ [newAuditLog now ev]
       \<and> bruteForceIncidents (snd (log now ev s)) =
           (if recentFailures now (lo_userId ev) (auditLogs s @ [newAuditLog now ev]) \<ge> 5 then
              (case find (matchesCandidate now
                            (bruteForceCandidate ev
                               (recentFailures now (lo_userId ev)
                                  (auditLogs s @ [newAuditLog now ev]))))
                      (bruteForceIncidents s) of
                 Some ex \<Rightarrow>
                   mergeInto ex
                     (bruteForceCandidate ev
                        (recentFailures now (lo_userId ev) (auditLogs s @ [newAuditLog now ev])))
                     (bruteForceIncidents s)
               | None \<Rightarrow>
                   bruteForceIncidents s
                   @ [newIncident (nextId s) now
                        (bruteForceCandidate ev
                           (recentFailures now (lo_userId ev)
                              (auditLogs s @ [newAuditLog now ev])))])
            else bruteForceIncidents s)"
proof -
  let ?a = "newAuditLog now ev"
  let ?s1 = "auditLine ?a ev (s\<lparr>auditLogs := auditLogs s @ [?a]\<rparr>)"
  have s1: "faults ?s1 = []" "incidentKeys ?s1" "auditLogs ?s1 = auditLogs s @ [?a]"
    "bruteForceIncidents ?s1 = bruteForceIncidents s" "nextId ?s1 = nextId s"
    using nf keys
    by (simp_all add: auditLine_def logger_def incidentKeys_def bruteForceIncidents_def)
  let ?s2 = "snd (bruteForceCheck now ev ?s1)"
  have s2: "faults ?s2 = []" "incidentKeys ?s2" "auditLogs ?s2 = auditLogs ?s1"
    using bruteForceCheck_frame [OF s1(1,2) act uid, of now] by simp_all
  let ?s3 = "snd (multipleIPCheck now ev ?s2)"
  have l: "log now ev s = (Inr (Some ?a), ?s3)"
    by (simp add: log_def try_catch_def bindE_def returnE_def auditLog_create_no_faults [OF nf]
        detect_failed_login [OF s1(1,2) act uid])
  have b: "bruteForceIncidents ?s3 = bruteForceIncidents ?s2"
    using multipleIPCheck_frame [OF s2(1,2), of now ev] by simp
  note c = bruteForceCheck_incidents [OF s1(1) act uid, of now, unfolded s1(3,4,5)]
  from multipleIPCheck_frame [OF s2(1,2), of now ev] s2(3) s1(3)
  have f: "faults ?s3 = []" "incidentKeys ?s3" "auditLogs ?s3 = auditLogs s @ [?a]"
    by simp_all
  show ?thesis
    unfolding l fst_conv snd_conv b c using f by simp
qed

lemma log_other_event:
  assumes nf: "faults s = []" and keys: "incidentKeys s"
    and other: "\<not> (lo_action ev = ''LOGIN_FAILED'' \<and> truthy (lo_userId ev))"
  shows "bruteForceIncidents (snd (log now ev s)) = bruteForceIncidents s"
proof -
  let ?a = "newAuditLog now ev"
  let ?s1 = "auditLine ?a ev (s\<lparr>auditLogs := auditLogs s @ [?a]\<rparr>)"
  have s1: "faults ?s1 = []" "incidentKeys ?s1"
    "bruteForceIncidents ?s1 = bruteForceIncidents s"
    using nf keys
    by (simp_all add: auditLine_def logger_def incidentKeys_def bruteForceIncidents_def)
  let ?s2 = "snd (sensitiveAccessCheck now ev ?s1)"
  note f2 = sensitiveAccessCheck_frame [OF s1(1,2), of now ev]
  then have s2: "faults ?s2 = []" "incidentKeys ?s2" by simp_all
  let ?s3 = "snd (multipleIPCheck now ev ?s2)"
  note f3 = multipleIPCheck_frame [OF s2, of now ev]
  have l: "log now ev s = (Inr (Some ?a), ?s3)"
    by (simp add: log_def try_catch_def bindE_def returnE_def auditLog_create_no_faults [OF nf]
        detect_other_event [OF s1(1,2) other])
  show ?thesis unfolding l snd_conv using f2 f3 s1(3) by simp
qed

lemma recentFailures_snoc:
  "lo_action ev = ''LOGIN_FAILED'' \<Longrightarrow>
   recentFailures now (lo_userId ev) (ls @ [newAuditLog now ev])
     = recentFailures now (lo_userId ev) ls + 1"
  by (simp add: recentFailures_def newAuditLog_def)

lemma logAll_snoc: "logAll (es @ [e]) s = snd (log (fst e) (snd e) (logAll es s))"
  by (induction es arbitrary: s) simp_all

lemma failedLoginBurst_prefix:
  assumes "failedLoginBurst u (es @ [e])"
  shows "failedLoginBurst u es"
proof (cases "es = []")
  case True
  with assms show ?thesis by (simp add: failedLoginBurst_def)
next
  case False
  from assms have srt: "sorted (map fst es @ [fst e])" by (simp add: failedLoginBurst_def)
  then have "fst (last es) \<le> fst e"
    using False by (simp add: sorted_append)
  moreover from assms have "\<forall>x\<in>set es. fst e \<le> fst x + 15 * 60 * 1000"
    by (simp add: failedLoginBurst_def list_all_iff)
  ultimately have "\<forall>x\<in>set es. fst (last es) \<le> fst x + 15 * 60 * 1000" by fastforce
  with assms srt show ?thesis
    by (simp add: failedLoginBurst_def list_all_iff sorted_append)
qed

lemma recentFailures_burst:
  assumes q: "quietStart u s0" and b: "failedLoginBurst u (es @ [(t, ev)])"
  shows "recentFailures t (lo_userId ev) (auditLogs s0 @ entriesOf es @ [newAuditLog t ev])
           = length es + 1"
proof -
  let ?P = "\<lambda>l. al_userId l = lo_userId ev \<and> al_action l = ''LOGIN_FAILED''
                  \<and> al_createdAt l \<ge> t - 15 * 60 * 1000"
  from b have uid: "lo_userId ev = Some u" by (simp add: failedLoginBurst_def)
  from q have 0: "filter ?P (auditLogs s0) = []"
    by (auto simp: quietStart_def list_all_iff filter_empty_conv uid)
  from b have "\<forall>x\<in>set es. ?P (newAuditLog (fst x) (snd x))"
    by (auto simp: failedLoginBurst_def list_all_iff newAuditLog_def)
  then have 1: "filter ?P (entriesOf es) = entriesOf es"
    by (simp add: entriesOf_def filter_id_conv)
  from b have 2: "?P (newAuditLog t ev)"
    by (simp add: failedLoginBurst_def newAuditLog_def)
  show ?thesis
    unfolding recentFailures_def filter_append 0 1 using 2 by (simp add: entriesOf_def)
qed

lemma burst_invariant:
  assumes q: "quietStart u s0"
  shows "failedLoginBurst u es \<Longrightarrow>
     faults (logAll es s0) = [] \<and> incidentKeys (logAll es s0)
     \<and> auditLogs (logAll es s0) = auditLogs s0 @ entriesOf es
     \<and> (length es < 5 \<longrightarrow> bruteForceIncidents (logAll es s0) = [])
     \<and> (5 \<le> length es \<longrightarrow>
          (\<exists>i. bruteForceIncidents (logAll es s0) = [i] \<and> si_status i = ''OPEN''
               \<and> si_type i = ''BRUTE_FORCE'' \<and> si_severity i = ''HIGH''
               \<and> si_affectedUsers i = [u] \<and> si_detectedAt i = fst (es ! 4)))"
proof (induction es rule: rev_induct)
  case Nil
  with q show ?case by (simp add: quietStart_def entriesOf_def)
next
  case (snoc e es)
  obtain t ev where e: "e = (t, ev)" by (cases e)
  from snoc.prems have b: "failedLoginBurst u (es @ [(t, ev)])" by (simp add: e)
  from b have pre: "failedLoginBurst u es" by (rule failedLoginBurst_prefix)
  note ih = snoc.IH [OF pre]
  let ?s = "logAll es s0"
  from b have act: "lo_action ev = ''LOGIN_FAILED''" and uid: "lo_userId ev = Some u"
    and u: "u \<noteq> []"
    by (simp_all add: failedLoginBurst_def)
  then have tr: "truthy (lo_userId ev)" by (simp add: truthy_def)
  from ih have nf: "faults ?s = []" and keys: "incidentKeys ?s"
    and al: "auditLogs ?s = auditLogs s0 @ entriesOf es" by simp_all
  have n: "recentFailures t (lo_userId ev) (auditLogs ?s @ [newAuditLog t ev]) = length es + 1"
    unfolding al using recentFailures_burst [OF q b] by simp
  note step = log_failed_login [OF nf keys act tr, of t, unfolded n]
  have s': "logAll (es @ [e]) s0 = snd (log t ev ?s)" by (simp add: logAll_snoc e)
  let ?c = "bruteForceCandidate ev (length es + 1)"
  have frame: "faults (logAll (es @ [e]) s0) = []" "incidentKeys (logAll (es @ [e]) s0)"
    "auditLogs (logAll (es @ [e]) s0) = auditLogs s0 @ entriesOf (es @ [e])"
    unfolding s' using step al by (simp_all add: entriesOf_def e)
  have br: "bruteForceIncidents (logAll (es @ [e]) s0) =
           (if 5 \<le> length es + 1 then
              (case find (matchesCandidate t ?c) (bruteForceIncidents ?s) of
                 Some ex \<Rightarrow> mergeInto ex ?c (bruteForceIncidents ?s)
               | None \<Rightarrow> bruteForceIncidents ?s @ [newIncident (nextId ?s) t ?c])
            else bruteForceIncidents ?s)"
    unfolding s' using step by simp
  consider (few) "length es < 4" | (fifth) "length es = 4" | (more) "5 \<le> length es"
    by linarith
  then have "(length (es @ [e]) < 5 \<longrightarrow> bruteForceIncidents (logAll (es @ [e]) s0) = [])
     \<and> (5 \<le> length (es @ [e]) \<longrightarrow>
          (\<exists>i. bruteForceIncidents (logAll (es @ [e]) s0) = [i] \<and> si_status i = ''OPEN''
               \<and> si_type i = ''BRUTE_FORCE'' \<and> si_severity i = ''HIGH''
               \<and> si_affectedUsers i = [u] \<and> si_detectedAt i = fst ((es @ [e]) ! 4)))"
  proof cases
    case few
    with ih br show ?thesis by simp
  next
    case fifth
    with ih have "bruteForceIncidents ?s = []" by simp
    with br fifth have "bruteForceIncidents (logAll (es @ [e]) s0) = [newIncident (nextId ?s) t ?c]"
      by simp
    with fifth uid show ?thesis
      by (simp add: newIncident_def bruteForceCandidate_def nth_append e)
  next
    case more
    with ih obtain i where i: "bruteForceIncidents ?s = [i]" "si_status i = ''OPEN''"
      "si_type i = ''BRUTE_FORCE''" "si_severity i = ''HIGH''" "si_affectedUsers i = [u]"
      "si_detectedAt i = fst (es ! 4)" by auto
    from b more have "t \<le> fst (es ! 4) + 15 * 60 * 1000"
      by (auto simp: failedLoginBurst_def list_all_iff)
    with i uid have m: "matchesCandidate t ?c i"
      by (simp add: matchesCandidate_def bruteForceCandidate_def)
    with br more i have "bruteForceIncidents (logAll (es @ [e]) s0) = mergeInto i ?c [i]"
      by simp
    with more i show ?thesis
      by (simp add: mergeInto_def nth_append)
  qed
  with frame show ?case by blast
qed

text \<open>
  Claim C7. When no storage call fails: recording a failed-authentication event that has
  an actor counts the actor's failed-authentication entries of the last 15 minutes, the
  new entry included, and exactly when the count is at least 5 the detector hands
  create-or-merge a \<open>BRUTE_FORCE\<close> candidate of severity \<open>HIGH\<close> whose description
  names the actor, the count and the origin address: the brute-force incidents then are
  the old ones with the candidate merged into the first matching one, or with a new
  incident appended; for any other event, and for a count below 5, they are unchanged.
  Starting from a state without brute-force incidents and without earlier failures of the
  actor, a run of failed authentications of one actor, all within 15 minutes, leaves no
  brute-force incident while it has fewer than 5 events and exactly one, \<open>OPEN\<close> and
  \<open>HIGH\<close>, from the fifth on: the fifth event creates it, and each later one appends
  its description to it.
\<close>

theorem brute_force_detection:
  "(faults s = [] \<and> incidentKeys s \<longrightarrow>
      (lo_action ev = ''LOGIN_FAILED'' \<and> truthy (lo_userId ev) \<longrightarrow>
         recentFailures now (lo_userId ev) (auditLogs s @ [newAuditLog now ev])
           = recentFailures now (lo_userId ev) (auditLogs s) + 1
         \<and> auditLogs (snd (log now ev s)) = auditLogs s @ [newAuditLog now ev]
         \<and> bruteForceIncidents (snd (log now ev s)) =
             (if recentFailures now (lo_userId ev) (auditLogs s @ [newAuditLog now ev]) \<ge> 5 then
                (case find (matchesCandidate now
                              (bruteForceCandidate ev
                                 (recentFailures now (lo_userId ev)
                                    (auditLogs s @ [newAuditLog now ev]))))
                        (bruteForceIncidents s) of
                   Some ex \<Rightarrow>
                     mergeInto ex
                       (bruteForceCandidate ev
                          (recentFailures now (lo_userId ev)
                             (auditLogs s @ [newAuditLog now ev])))
                       (bruteForceIncidents s)
                 | None \<Rightarrow>
                     bruteForceIncidents s
                     @ [newIncident (nextId s) now
                          (bruteForceCandidate ev
                             (recentFailures now (lo_userId ev)
                                (auditLogs s @ [newAuditLog now ev])))])
              else bruteForceIncidents s))
      \<and> (\<not> (lo_action ev = ''LOGIN_FAILED'' \<and> truthy (lo_userId ev)) \<longrightarrow>
           bruteForceIncidents (snd (log now ev s)) = bruteForceIncidents s))
   \<and> (quietStart u s0 \<and> failedLoginBurst u es \<longrightarrow>
        (length es < 5 \<longrightarrow> bruteForceIncidents (logAll es s0) = [])
        \<and> (5 \<le> length es \<longrightarrow>
             (\<exists>i. bruteForceIncidents (logAll es s0) = [i] \<and> si_status i = ''OPEN''
                  \<and> si_type i = ''BRUTE_FORCE'' \<and> si_severity i = ''HIGH''
                  \<and> si_affectedUsers i = [u] \<and> si_detectedAt i = fst (es ! 4))))
   \<and> (quietStart u s0 \<and> failedLoginBurst u (es @ [(t, e)]) \<and> length es = 4 \<longrightarrow>
        bruteForceIncidents (logAll (es @ [(t, e)]) s0)
          = [newIncident (nextId (logAll es s0)) t (bruteForceCandidate e 5)])
   \<and> (quietStart u s0 \<and> failedLoginBurst u (es @ [(t, e)]) \<and> 5 \<le> length es \<longrightarrow>
        (\<exists>i. bruteForceIncidents (logAll es s0) = [i]
            \<and> bruteForceIncidents (logAll (es @ [(t, e)]) s0)
                = [i\<lparr>si_description :=
                       si_description i @ [CHR 0x0A]
                       @ id_description (bruteForceCandidate e (length es + 1))\<rparr>]))"
proof (intro conjI impI)
  assume h: "faults s = [] \<and> incidentKeys s"
    and a: "lo_action ev = ''LOGIN_FAILED'' \<and> truthy (lo_userId ev)"
  from a show "recentFailures now (lo_userId ev) (auditLogs s @ [newAuditLog now ev])
           = recentFailures now (lo_userId ev) (auditLogs s) + 1"
    by (simp add: recentFailures_snoc)
  from h a have step: "fst (log now ev s) = Inr (Some (newAuditLog now ev))
       \<and> faults (snd (log now ev s)) = []
       \<and> incidentKeys (snd (log now ev s))
       \<and> auditLogs (snd (log now ev s)) = auditLogs s @ [newAuditLog now ev]
       \<and> bruteForceIncidents (snd (log now ev s)) =
           (if recentFailures now (lo_userId ev) (auditLogs s @ [newAuditLog now ev]) \<ge> 5 then
              (case find (matchesCandidate now
                            (bruteForceCandidate ev
                               (recentFailures now (lo_userId ev)
                                  (auditLogs s @ [newAuditLog now ev]))))
                      (bruteForceIncidents s) of
                 Some ex \<Rightarrow>
                   mergeInto ex
                     (bruteForceCandidate ev
                        (recentFailures now (lo_userId ev) (auditLogs s @ [newAuditLog now ev])))
                     (bruteForceIncidents s)
               | None \<Rightarrow>
                   bruteForceIncidents s
                   @ [newIncident (nextId s) now
                        (bruteForceCandidate ev
                           (recentFailures now (lo_userId ev)
                              (auditLogs s @ [newAuditLog now ev])))])
            else bruteForceIncidents s)"
    by (intro log_failed_login) simp_all
  from step show "auditLogs (snd (log now ev s)) = auditLogs s @ [newAuditLog now ev]"
    by blast
  from step show "bruteForceIncidents (snd (log now ev s)) =
           (if recentFailures now (lo_userId ev) (auditLogs s @ [newAuditLog now ev]) \<ge> 5 then
              (case find (matchesCandidate now
                            (bruteForceCandidate ev
                               (recentFailures now (lo_userId ev)
                                  (auditLogs s @ [newAuditLog now ev]))))
                      (bruteForceIncidents s) of
                 Some ex \<Rightarrow>
                   mergeInto ex
                     (bruteForceCandidate ev
                        (recentFailures now (lo_userId ev) (auditLogs s @ [newAuditLog now ev])))
                     (bruteForceIncidents s)
               | None \<Rightarrow>
                   bruteForceIncidents s
                   @ [newIncident (nextId s) now
                        (bruteForceCandidate ev
                           (recentFailures now (lo_userId ev)
                              (auditLogs s @ [newAuditLog now ev])))])
            else bruteForceIncidents s)"
    by blast
next
  assume "faults s = [] \<and> incidentKeys s"
    and "\<not> (lo_action ev = ''LOGIN_FAILED'' \<and> truthy (lo_userId ev))"
  then show "bruteForceIncidents (snd (log now ev s)) = bruteForceIncidents s"
    by (intro log_other_event) simp_all
next
  assume h: "quietStart u s0 \<and> failedLoginBurst u es" and "length es < 5"
  with burst_invariant [of u s0 es] show "bruteForceIncidents (logAll es s0) = []" by simp
next
  assume h: "quietStart u s0 \<and> failedLoginBurst u es" and "5 \<le> length es"
  with burst_invariant [of u s0 es]
  show "\<exists>i. bruteForceIncidents (logAll es s0) = [i] \<and> si_status i = ''OPEN''
                  \<and> si_type i = ''BRUTE_FORCE'' \<and> si_severity i = ''HIGH''
                  \<and> si_affectedUsers i = [u] \<and> si_detectedAt i = fst (es ! 4)"
    by simp
next
  assume h: "quietStart u s0 \<and> failedLoginBurst u (es @ [(t, e)]) \<and> length es = 4"
  then have q: "quietStart u s0" and b: "failedLoginBurst u (es @ [(t, e)])"
    and len: "length es = 4" by simp_all
  from b have pre: "failedLoginBurst u es" by (rule failedLoginBurst_prefix)
  note inv = burst_invariant [OF q pre]
  from b have act: "lo_action e = ''LOGIN_FAILED''" and tr: "truthy (lo_userId e)"
    by (simp_all add: failedLoginBurst_def truthy_def)
  from inv have nf: "faults (logAll es s0) = []" and keys: "incidentKeys (logAll es s0)"
    and al: "auditLogs (logAll es s0) = auditLogs s0 @ entriesOf es"
    and br: "bruteForceIncidents (logAll es s0) = []" using len by simp_all
  have n: "recentFailures t (lo_userId e) (auditLogs (logAll es s0) @ [newAuditLog t e]) = 5"
    unfolding al using recentFailures_burst [OF q b] len by simp
  from log_failed_login [OF nf keys act tr, of t, unfolded n br]
  show "bruteForceIncidents (logAll (es @ [(t, e)]) s0)
          = [newIncident (nextId (logAll es s0)) t (bruteForceCandidate e 5)]"
    by (simp add: logAll_snoc)
next
  assume h: "quietStart u s0 \<and> failedLoginBurst u (es @ [(t, e)]) \<and> 5 \<le> length es"
  then have q: "quietStart u s0" and b: "failedLoginBurst u (es @ [(t, e)])"
    and len: "5 \<le> length es" by simp_all
  from b have pre: "failedLoginBurst u es" by (rule failedLoginBurst_prefix)
  note inv = burst_invariant [OF q pre]
  from b have act: "lo_action e = ''LOGIN_FAILED''" and uid: "lo_userId e = Some u"
    and u: "u \<noteq> []"
    by (simp_all add: failedLoginBurst_def)
  then have tr: "truthy (lo_userId e)" by (simp add: truthy_def)
  from inv have nf: "faults (logAll es s0) = []" and keys: "incidentKeys (logAll es s0)"
    and al: "auditLogs (logAll es s0) = auditLogs s0 @ entriesOf es" by simp_all
  from inv len obtain i where i: "bruteForceIncidents (logAll es s0) = [i]"
      "si_status i = ''OPEN''" "si_type i = ''BRUTE_FORCE''" "si_affectedUsers i = [u]"
      "si_detectedAt i = fst (es ! 4)" by auto
  have n: "recentFailures t (lo_userId e) (auditLogs (logAll es s0) @ [newAuditLog t e])
             = length es + 1"
    unfolding al using recentFailures_burst [OF q b] by simp
  from b len have "t \<le> fst (es ! 4) + 15 * 60 * 1000"
    by (auto simp: failedLoginBurst_def list_all_iff)
  with i uid have m: "matchesCandidate t (bruteForceCandidate e (length es + 1)) i"
    by (simp add: matchesCandidate_def bruteForceCandidate_def)
  from log_failed_login [OF nf keys act tr, of t, unfolded n i(1)] m len
  have "bruteForceIncidents (logAll (es @ [(t, e)]) s0)
          = mergeInto i (bruteForceCandidate e (length es + 1)) [i]"
    by (simp add: logAll_snoc)
  with i(1) show "\<exists>i. bruteForceIncidents (logAll es s0) = [i]
            \<and> bruteForceIncidents (logAll (es @ [(t, e)]) s0)
                = [i\<lparr>si_description :=
                       si_description i @ [CHR 0x0A]
                       @ id_description (bruteForceCandidate e (length es + 1))\<rparr>]"
    by (simp add: mergeInto_def)
qed

theorem brute_force_detection_witness:
  "faults emptyWorld = [] \<and> incidentKeys emptyWorld
   \<and> quietStart ''u1'' emptyWorld \<and> failedLoginBurst ''u1'' burst
   \<and> length (take 4 burst) = 4 \<and> length (take 5 burst) = 5
   \<and> burst = take 5 burst @ [(6000, failedLogin ''u1'' ''10.0.0.3'')]
   \<and> take 5 burst = take 4 burst @ [(5000, failedLogin ''u1'' ''10.0.0.2'')]
   \<and> lo_action (failedLogin ''u1'' ''10.0.0.1'') = ''LOGIN_FAILED''
   \<and> truthy (lo_userId (failedLogin ''u1'' ''10.0.0.1''))
   \<and> recentFailures 1000 (Some ''u1'') [newAuditLog 1000 (failedLogin ''u1'' ''10.0.0.1'')] = 1
   \<and> bruteForceIncidents (snd (log 1000 (failedLogin ''u1'' ''10.0.0.1'') emptyWorld)) = []
   \<and> faults incidentWorld = [] \<and> incidentKeys incidentWorld
   \<and> lo_action ((failedLogin ''u1'' ''10.0.0.1'')\<lparr>lo_action := ''LOGIN''\<rparr>) \<noteq> ''LOGIN_FAILED''
   \<and> bruteForceIncidents
        (snd (log 6000 ((failedLogin ''u1'' ''10.0.0.1'')\<lparr>lo_action := ''LOGIN''\<rparr>)
                incidentWorld))
       = [bruteIncident]
   \<and> bruteForceIncidents (logAll (take 4 burst) emptyWorld) = []
   \<and> bruteForceIncidents (logAll (take 5 burst) emptyWorld) = [bruteIncident]
   \<and> si_status bruteIncident = ''OPEN'' \<and> si_severity bruteIncident = ''HIGH''
   \<and> si_description bruteIncident
       = ''User u1 has 5 failed login attempts in the last 15 minutes from IP 10.0.0.2''
   \<and> bruteForceIncidents (logAll burst emptyWorld)
       = [bruteIncident
            \<lparr>si_description :=
               ''User u1 has 5 failed login attempts in the last 15 minutes from IP 10.0.0.2''
               @ [CHR 0x0A]
               @ ''User u1 has 6 failed login attempts in the last 15 minutes from IP 10.0.0.3''\<rparr>]"
proof -
  let ?e1 = "failedLogin ''u1'' ''10.0.0.1''"
  let ?e5 = "failedLogin ''u1'' ''10.0.0.2''"
  let ?e6 = "failedLogin ''u1'' ''10.0.0.3''"
  note t5 = brute_force_detection [of emptyWorld ?e1 1000 "''u1''" emptyWorld "take 5 burst" 6000 ?e6]
  note t4 = brute_force_detection [of emptyWorld ?e1 1000 "''u1''" emptyWorld "take 4 burst" 5000 ?e5]
  have nf: "faults emptyWorld = []" and k: "incidentKeys emptyWorld"
    and q: "quietStart ''u1'' emptyWorld"
    by (simp_all add: eval_defs quietStart_def incidentKeys_def)
  have l4: "length (take 4 burst) = 4" and l5: "length (take 5 burst) = 5"
    and s6: "burst = take 5 burst @ [(6000, ?e6)]"
    and s5: "take 5 burst = take 4 burst @ [(5000, ?e5)]"
    by (simp_all add: burst_def)
  have b6: "failedLoginBurst ''u1'' burst"
    by (simp add: failedLoginBurst_def burst_def failedLogin_def)
  then have b6': "failedLoginBurst ''u1'' (take 5 burst @ [(6000, ?e6)])"
    using s6 by simp
  have b5: "failedLoginBurst ''u1'' (take 5 burst)"
    by (simp add: failedLoginBurst_def burst_def failedLogin_def)
  then have b5': "failedLoginBurst ''u1'' (take 4 burst @ [(5000, ?e5)])"
    using s5 by simp
  have b4: "failedLoginBurst ''u1'' (take 4 burst)"
    by (simp add: failedLoginBurst_def burst_def failedLogin_def)
  have a1: "lo_action ?e1 = ''LOGIN_FAILED''" "truthy (lo_userId ?e1)" "lo_userId ?e1 = Some ''u1''"
    by (simp_all add: failedLogin_def truthy_def)
  have n1: "recentFailures 1000 (Some ''u1'') [newAuditLog 1000 ?e1] = 1"
    by (simp add: recentFailures_def newAuditLog_def failedLogin_def)
  have al0: "auditLogs emptyWorld = []" "bruteForceIncidents emptyWorld = []"
    by (simp_all add: emptyWorld_def bruteForceIncidents_def)
  from t5 nf k a1(1,2)
  have "bruteForceIncidents (snd (log 1000 ?e1 emptyWorld)) =
             (if recentFailures 1000 (lo_userId ?e1) (auditLogs emptyWorld @ [newAuditLog 1000 ?e1]) \<ge> 5 then
                (case find (matchesCandidate 1000
                              (bruteForceCandidate ?e1
                                 (recentFailures 1000 (lo_userId ?e1)
                                    (auditLogs emptyWorld @ [newAuditLog 1000 ?e1]))))
                        (bruteForceIncidents emptyWorld) of
                   Some ex \<Rightarrow>
                     mergeInto ex
                       (bruteForceCandidate ?e1
                          (recentFailures 1000 (lo_userId ?e1)
                             (auditLogs emptyWorld @ [newAuditLog 1000 ?e1])))
                       (bruteForceIncidents emptyWorld)
                 | None \<Rightarrow>
                     bruteForceIncidents emptyWorld
                     @ [newIncident (nextId emptyWorld) 1000
                          (bruteForceCandidate ?e1
                             (recentFailures 1000 (lo_userId ?e1)
                                (auditLogs emptyWorld @ [newAuditLog 1000 ?e1])))])
              else bruteForceIncidents emptyWorld)"
    by blast
  then have one: "bruteForceIncidents (snd (log 1000 ?e1 emptyWorld)) = []"
    unfolding a1(3) al0 append_Nil n1 by simp
  from t4 q b4 l4 have four: "bruteForceIncidents (logAll (take 4 burst) emptyWorld) = []"
    by simp
  have id4: "nextId (logAll (take 4 burst) emptyWorld) = 0"
    by (simp add: eval_defs)
  from t4 q b5' l4
  have "bruteForceIncidents (logAll (take 4 burst @ [(5000, ?e5)]) emptyWorld)
          = [newIncident (nextId (logAll (take 4 burst) emptyWorld)) 5000
               (bruteForceCandidate ?e5 5)]"
    by blast
  then have five: "bruteForceIncidents (logAll (take 5 burst) emptyWorld) = [bruteIncident]"
    unfolding id4 s5 [symmetric] bruteIncident_def .
  from t5 q b6' l5
  have "\<exists>i. bruteForceIncidents (logAll (take 5 burst) emptyWorld) = [i]
            \<and> bruteForceIncidents (logAll (take 5 burst @ [(6000, ?e6)]) emptyWorld)
                = [i\<lparr>si_description :=
                       si_description i @ [CHR 0x0A]
                       @ id_description (bruteForceCandidate ?e6 (length (take 5 burst) + 1))\<rparr>]"
    by simp
  with five have "bruteForceIncidents (logAll (take 5 burst @ [(6000, ?e6)]) emptyWorld)
                = [bruteIncident\<lparr>si_description :=
                       si_description bruteIncident @ [CHR 0x0A]
                       @ id_description (bruteForceCandidate ?e6 (length (take 5 burst) + 1))\<rparr>]"
    by auto
  then have six: "bruteForceIncidents (logAll burst emptyWorld)
       = [bruteIncident
            \<lparr>si_description :=
               ''User u1 has 5 failed login attempts in the last 15 minutes from IP 10.0.0.2''
               @ [CHR 0x0A]
               @ ''User u1 has 6 failed login attempts in the last 15 minutes from IP 10.0.0.3''\<rparr>]"
    unfolding s6 [symmetric] l5
    by (simp add: bruteIncident_def newIncident_def bruteForceCandidate_def failedLogin_def
        show_opt_def show_nat.simps)
  have p: "si_status bruteIncident = ''OPEN''" "si_severity bruteIncident = ''HIGH''"
    "si_description bruteIncident
       = ''User u1 has 5 failed login attempts in the last 15 minutes from IP 10.0.0.2''"
    by (simp_all add: bruteIncident_def newIncident_def bruteForceCandidate_def failedLogin_def
        show_opt_def show_nat.simps)
  let ?login = "(failedLogin ''u1'' ''10.0.0.1'')\<lparr>lo_action := ''LOGIN''\<rparr>"
  have w: "faults incidentWorld = []" "incidentKeys incidentWorld"
    "bruteForceIncidents incidentWorld = [bruteIncident]"
    by (simp_all add: incidentWorld_def emptyWorld_def incidentKeys_def bruteIncident_def
        newIncident_def bruteForceIncidents_def bruteForceCandidate_def)
  have o: "lo_action ?login \<noteq> ''LOGIN_FAILED''" by (simp add: failedLogin_def)
  from brute_force_detection
         [of incidentWorld ?login 6000 "''u1''" emptyWorld "take 5 burst" 6000 ?e6] w(1,2) o
  have "bruteForceIncidents (snd (log 6000 ?login incidentWorld))
          = bruteForceIncidents incidentWorld"
    by blast
  with w(3) have other: "bruteForceIncidents (snd (log 6000 ?login incidentWorld))
                           = [bruteIncident]"
    by simp
  from nf k q b6 l4 l5 s6 s5 a1(1,2) n1 one w(1,2) o other four five p six
  show ?thesis by blast
qed

end
